theory Spec2Isabelle
  imports Main "HOL-Library.Word"
begin

unbundle bit_operations_syntax

section \<open>Types of \<^verbatim>\<open>utils/types.h\<close>\<close>

type_synonym TimePoint = "64 word"
type_synonym Register = "64 word"
type_synonym CpuId = "32 word"
type_synonym InternalRegister = "32 word"

text \<open>\<^verbatim>\<open>std::size_t\<close> on the x86-64 Linux target of the library.\<close>

type_synonym size_t = "64 word"

section \<open>The machine as the library sees it\<close>

text \<open>
  The library talks to the processor through inline assembly. Each execution of
  \<^verbatim>\<open>rdtsc\<close> or \<^verbatim>\<open>rdtscp\<close> delivers three 32-bit registers: the low half and the
  high half of the counter and, for \<^verbatim>\<open>rdtscp\<close>, the auxiliary register. The
  values that the hardware will deliver are the \<open>tape\<close>: one entry is consumed
  by each read instruction. A tape is a finite trace of the hardware; a read on an
  empty tape yields \<open>None\<close>, which stands for a caller that has not returned by
  the end of the trace.

  The world also records every instruction and call that has been issued, in
  order, and the state that the operation under measurement works on.\<close>

record reading =
  low :: "32 word"
  high :: "32 word"
  aux :: "32 word"

datatype event = CPUID | RDTSC | RDTSCP | LFENCE | MFENCE | CALL | PIN int

record 'u world =
  tape :: "reading list"
  executed :: "event list"
  user :: 'u

definition issue :: "event \<Rightarrow> 'u world \<Rightarrow> 'u world" where
  "issue e w = w\<lparr>executed := executed w @ [e]\<rparr>"

text \<open>Calling the operation under measurement: \<^verbatim>\<open>code()\<close>.\<close>

definition invoke :: "('u \<Rightarrow> 'u) \<Rightarrow> 'u world \<Rightarrow> 'u world" where
  "invoke code w = issue CALL (w\<lparr>user := code (user w)\<rparr>)"

section \<open>\<^verbatim>\<open>tsc_cpu.h\<close>\<close>

definition CombineRegisters :: "Register \<Rightarrow> Register \<Rightarrow> Register" where
  "CombineRegisters lo hi = (push_bit 32 hi) OR lo"

definition Rdtsc :: "'u world \<Rightarrow> (TimePoint \<times> 'u world) option" where
  "Rdtsc w =
     (case tape w of
        [] \<Rightarrow> None
      | x # rest \<Rightarrow>
          Some (CombineRegisters (ucast (low x)) (ucast (high x)),
                issue RDTSC (w\<lparr>tape := rest\<rparr>)))"

definition Rdtscp :: "'u world \<Rightarrow> (TimePoint \<times> 'u world) option" where
  "Rdtscp w =
     (case tape w of
        [] \<Rightarrow> None
      | x # rest \<Rightarrow>
          Some (CombineRegisters (ucast (low x)) (ucast (high x)),
                issue RDTSCP (w\<lparr>tape := rest\<rparr>)))"

text \<open>\<^verbatim>\<open>Rdtscp(CpuId& chip_number)\<close>: the out-parameter is returned with the value.\<close>

definition Rdtscp_chip :: "'u world \<Rightarrow> ((TimePoint \<times> CpuId) \<times> 'u world) option" where
  "Rdtscp_chip w =
     (case tape w of
        [] \<Rightarrow> None
      | x # rest \<Rightarrow>
          Some ((CombineRegisters (ucast (low x)) (ucast (high x)), aux x AND 0xFFFFFF),
                issue RDTSCP (w\<lparr>tape := rest\<rparr>)))"

definition CpuId :: "'u world \<Rightarrow> 'u world" where
  "CpuId w = issue CPUID w"

definition LFence :: "'u world \<Rightarrow> 'u world" where
  "LFence w = issue LFENCE w"

definition MFence :: "'u world \<Rightarrow> 'u world" where
  "MFence w = issue MFENCE w"

text \<open>\<^verbatim>\<open>CpuInfo\<close>: the four registers that \<^verbatim>\<open>cpuid\<close> with \<^verbatim>\<open>EAX=1\<close> returned.\<close>

record CpuInfo =
  registers_0 :: InternalRegister
  registers_1 :: InternalRegister
  registers_2 :: InternalRegister
  registers_3 :: InternalRegister

definition kTscFeatureBit :: InternalRegister where
  "kTscFeatureBit = push_bit 4 1"

definition kRdtscpFeatureBit :: InternalRegister where
  "kRdtscpFeatureBit = push_bit 27 1"

definition kInvariantTscBit :: InternalRegister where
  "kInvariantTscBit = push_bit 8 1"

definition IsFeatureEnabled :: "InternalRegister \<Rightarrow> InternalRegister \<Rightarrow> bool" where
  "IsFeatureEnabled reg bits = (reg AND bits \<noteq> 0)"

definition GetEdx :: "CpuInfo \<Rightarrow> InternalRegister" where
  "GetEdx info = registers_3 info"

definition IsTscEnabled :: "CpuInfo \<Rightarrow> bool" where
  "IsTscEnabled info = IsFeatureEnabled (GetEdx info) kTscFeatureBit"

definition IsInvariantTscEnabled :: "CpuInfo \<Rightarrow> bool" where
  "IsInvariantTscEnabled info = IsFeatureEnabled (GetEdx info) kInvariantTscBit"

definition IsRdtscpEnabled :: "CpuInfo \<Rightarrow> bool" where
  "IsRdtscpEnabled info = IsFeatureEnabled (GetEdx info) kRdtscpFeatureBit"

section \<open>\<^verbatim>\<open>tsc_clock.h\<close>\<close>

datatype Barrier = kOneCpuId | kLFence | kMFence | kRdtscp | kTwoCpuId

text \<open>
  \<^verbatim>\<open>TSCClock<BarrierType>\<close>: the primary template and its four specialisations,
  selected by the barrier. \<open>StartTime\<close> and \<open>EndTime\<close> are the overloads without
  argument, \<open>StartTime_cpu\<close> and \<open>EndTime_cpu\<close> those with \<^verbatim>\<open>CpuId& cpu_number\<close>.\<close>

fun StartTime :: "Barrier \<Rightarrow> 'u world \<Rightarrow> (TimePoint \<times> 'u world) option" where
  "StartTime kTwoCpuId w =
     (case Rdtsc (CpuId w) of None \<Rightarrow> None | Some (time, w') \<Rightarrow> Some (time, CpuId w'))"
| "StartTime b w = Rdtsc (CpuId w)"

fun StartTime_cpu :: "Barrier \<Rightarrow> 'u world \<Rightarrow> ((TimePoint \<times> CpuId) \<times> 'u world) option" where
  "StartTime_cpu kTwoCpuId w =
     (case Rdtscp_chip (CpuId w) of None \<Rightarrow> None | Some (r, w') \<Rightarrow> Some (r, CpuId w'))"
| "StartTime_cpu b w = Rdtscp_chip (CpuId w)"

fun EndTime :: "Barrier \<Rightarrow> 'u world \<Rightarrow> (TimePoint \<times> 'u world) option" where
  "EndTime kOneCpuId w = Rdtsc (CpuId w)"
| "EndTime kLFence w =
     (case Rdtsc (LFence w) of None \<Rightarrow> None | Some (time, w') \<Rightarrow> Some (time, CpuId w'))"
| "EndTime kMFence w =
     (case Rdtsc (CpuId w) of None \<Rightarrow> None | Some (time, w') \<Rightarrow> Some (time, MFence w'))"
| "EndTime kRdtscp w =
     (case Rdtscp w of None \<Rightarrow> None | Some (time, w') \<Rightarrow> Some (time, CpuId w'))"
| "EndTime kTwoCpuId w =
     (case Rdtsc (CpuId w) of None \<Rightarrow> None | Some (time, w') \<Rightarrow> Some (time, CpuId w'))"

fun EndTime_cpu :: "Barrier \<Rightarrow> 'u world \<Rightarrow> ((TimePoint \<times> CpuId) \<times> 'u world) option" where
  "EndTime_cpu kOneCpuId w = Rdtscp_chip (CpuId w)"
| "EndTime_cpu kLFence w =
     (case Rdtscp_chip (LFence w) of None \<Rightarrow> None | Some (r, w') \<Rightarrow> Some (r, CpuId w'))"
| "EndTime_cpu kMFence w =
     (case Rdtscp_chip (CpuId w) of None \<Rightarrow> None | Some (r, w') \<Rightarrow> Some (r, MFence w'))"
| "EndTime_cpu kRdtscp w =
     (case Rdtscp_chip w of None \<Rightarrow> None | Some (r, w') \<Rightarrow> Some (r, CpuId w'))"
| "EndTime_cpu kTwoCpuId w =
     (case Rdtscp_chip (CpuId w) of None \<Rightarrow> None | Some (r, w') \<Rightarrow> Some (r, CpuId w'))"

section \<open>\<^verbatim>\<open>utils/affinity.h\<close>\<close>

text \<open>
  \<^verbatim>\<open>PinThread\<close> asks the operating system for an affinity mask and prints one line.
  \<^verbatim>\<open>Run\<close> uses its result only to print a warning, so the call is recorded and its
  result is left open.\<close>

definition PinThread :: "int \<Rightarrow> 'u world \<Rightarrow> 'u world" where
  "PinThread cpu w = issue (PIN cpu) w"

section \<open>\<^verbatim>\<open>tsc_benchmark.h\<close>\<close>

datatype error = AssertionFailed | DivisionByZero

record Settings =
  cycles_number_' :: size_t
  cpu_' :: int
  cache_warmup_cycles_number_' :: size_t

record Result =
  time_' :: TimePoint
  overhead_' :: TimePoint

text \<open>
  A data member \<^verbatim>\<open>x_\<close> of the source is the field \<open>x_'\<close> here.

  The object: the two template arguments it was instantiated with and its two
  data members (the clock member has no state).\<close>

record TSCBenchmarking =
  CheckCpuMigration :: bool
  BarrierType :: Barrier
  tsc_overhead_' :: TimePoint
  clock_overhead_' :: TimePoint

definition kDefaultCyclesNumber :: size_t where
  "kDefaultCyclesNumber = 100"

definition kDefaultStabilizedThreshold :: size_t where
  "kDefaultStabilizedThreshold = kDefaultCyclesNumber * 10 div 100"

definition kDefaultRunsNumber :: size_t where
  "kDefaultRunsNumber = 100"

text \<open>
  The two operations of the calibration. \<^verbatim>\<open>kEmptyCode\<close> does nothing;
  \<^verbatim>\<open>kGetTime\<close> fills a local \<^verbatim>\<open>timespec\<close> and drops it. Neither touches the state
  of the caller: they differ in the time they take, which is on the tape.\<close>

definition kEmptyCode :: "'u \<Rightarrow> 'u" where
  "kEmptyCode u = u"

definition kGetTime :: "'u \<Rightarrow> 'u" where
  "kGetTime u = u"

text \<open>
  \<^verbatim>\<open>assert\<close> of \<^verbatim>\<open><cassert>\<close>: it passes when its condition holds, and in a build
  that defines \<^verbatim>\<open>NDEBUG\<close> it passes whatever the condition.\<close>

definition assert :: "bool \<Rightarrow> bool \<Rightarrow> bool" where
  "assert NDEBUG condition = (NDEBUG \<or> condition)"

text \<open>
  The constructor, in a build with or without \<^verbatim>\<open>NDEBUG\<close>. An \<^verbatim>\<open>assert\<close> that does
  not pass aborts the program; the warning about the invariant counter is returned
  beside the object.\<close>

definition TSCBenchmarking_ctor ::
  "bool \<Rightarrow> bool \<Rightarrow> Barrier \<Rightarrow> CpuInfo \<Rightarrow> error + (TSCBenchmarking \<times> string list)" where
  "TSCBenchmarking_ctor NDEBUG check_cpu_migration barrier cpu_info =
     (if \<not> assert NDEBUG (IsTscEnabled cpu_info) then Inl AssertionFailed
      else if \<not> assert NDEBUG (barrier \<noteq> kRdtscp \<or> IsRdtscpEnabled cpu_info)
      then Inl AssertionFailed
      else Inr (\<lparr>CheckCpuMigration = check_cpu_migration, BarrierType = barrier,
                  tsc_overhead_' = 0, clock_overhead_' = 0\<rparr>,
                if \<not> IsInvariantTscEnabled cpu_info
                then [''[Warning] Invariant TSC is not supported on your system'']
                else []))"

definition MeasureTime ::
  "TSCBenchmarking \<Rightarrow> ('u \<Rightarrow> 'u) \<Rightarrow> 'u world \<Rightarrow> (TimePoint \<times> 'u world) option" where
  "MeasureTime self code w =
     (case StartTime (BarrierType self) w of
        None \<Rightarrow> None
      | Some (start, w1) \<Rightarrow>
          (case EndTime (BarrierType self) (invoke code w1) of
             None \<Rightarrow> None
           | Some (end, w2) \<Rightarrow> Some (end - start, w2)))"

text \<open>
  \<^verbatim>\<open>Measure\<close>: the out-parameters \<^verbatim>\<open>start\<close> and \<^verbatim>\<open>end\<close> are returned with the
  result.\<close>

definition Measure ::
  "TSCBenchmarking \<Rightarrow> ('u \<Rightarrow> 'u) \<Rightarrow> 'u world \<Rightarrow>
     ((TimePoint \<times> TimePoint \<times> bool) \<times> 'u world) option" where
  "Measure self code w =
     (if CheckCpuMigration self then
        (case StartTime_cpu (BarrierType self) w of
           None \<Rightarrow> None
         | Some ((start, start_cpu_number), w1) \<Rightarrow>
             (case EndTime_cpu (BarrierType self) (invoke code w1) of
                None \<Rightarrow> None
              | Some ((end, end_cpu_number), w2) \<Rightarrow>
                  Some ((start, end, start_cpu_number = end_cpu_number), w2)))
      else
        (case StartTime (BarrierType self) w of
           None \<Rightarrow> None
         | Some (start, w1) \<Rightarrow>
             (case EndTime (BarrierType self) (invoke code w1) of
                None \<Rightarrow> None
              | Some (end, w2) \<Rightarrow> Some ((start, end, True), w2))))"

text \<open>
  The loop of \<^verbatim>\<open>MeasureMinLatency\<close>, on its variables \<^verbatim>\<open>i\<close> and
  \<^verbatim>\<open>min_latency\<close>. Every pass reads the counter twice, so the tape gets
  shorter.\<close>

function MeasureMinLatency_loop ::
  "TSCBenchmarking \<Rightarrow> ('u \<Rightarrow> 'u) \<Rightarrow> size_t \<Rightarrow> size_t \<Rightarrow> TimePoint \<Rightarrow> 'u world \<Rightarrow>
     (TimePoint \<times> 'u world) option" where
  "MeasureMinLatency_loop self code cycles_number i min_latency w =
     (if i < cycles_number then
        (case Measure self code w of
           None \<Rightarrow> None
         | Some ((start, end, same_cpu), w') \<Rightarrow>
             if same_cpu \<and> end > start
             then MeasureMinLatency_loop self code cycles_number (i + 1)
                    (min min_latency (end - start)) w'
             else MeasureMinLatency_loop self code cycles_number i min_latency w')
      else Some (min_latency, w))"
  by pat_completeness auto
termination
proof -
  have shorter: "length (tape w') < length (tape w)"
    if "Measure self code w = Some (x, w')"
    for self :: TSCBenchmarking and code :: "'u \<Rightarrow> 'u" and w w' :: "'u world" and x
    using that
    by (cases "BarrierType self")
       (auto simp: Measure_def Rdtsc_def Rdtscp_def Rdtscp_chip_def CpuId_def LFence_def
          MFence_def issue_def invoke_def split: if_splits option.splits list.splits)
  show ?thesis
    by (relation "measure (\<lambda>(self, code, cycles_number, i, min_latency, w). length (tape w))")
       (auto dest: shorter)
qed

definition MeasureMinLatency ::
  "TSCBenchmarking \<Rightarrow> size_t \<Rightarrow> ('u \<Rightarrow> 'u) \<Rightarrow> 'u world \<Rightarrow> (TimePoint \<times> 'u world) option" where
  "MeasureMinLatency self cycles_number code w =
     MeasureMinLatency_loop self code cycles_number 0 (- 1) w"

text \<open>
  The loop of \<^verbatim>\<open>MeasureStabilizedMinLatency\<close>, on \<^verbatim>\<open>i\<close>, \<^verbatim>\<open>min_latency\<close> and
  \<^verbatim>\<open>min_latency_cycles_number\<close>.\<close>

function MeasureStabilizedMinLatency_loop ::
  "TSCBenchmarking \<Rightarrow> ('u \<Rightarrow> 'u) \<Rightarrow> size_t \<Rightarrow> size_t \<Rightarrow> size_t \<Rightarrow> TimePoint \<Rightarrow> size_t \<Rightarrow>
     'u world \<Rightarrow> (TimePoint \<times> 'u world) option" where
  "MeasureStabilizedMinLatency_loop self code cycles_number stabilized_threshold
       i min_latency min_latency_cycles_number w =
     (if i < cycles_number \<and> min_latency_cycles_number < stabilized_threshold then
        (case Measure self code w of
           None \<Rightarrow> None
         | Some ((start, end, same_cpu), w') \<Rightarrow>
             if same_cpu \<and> end > start
             then (let latency = end - start in
                   if latency < min_latency
                   then MeasureStabilizedMinLatency_loop self code cycles_number
                          stabilized_threshold (i + 1) latency (0 + 1) w'
                   else MeasureStabilizedMinLatency_loop self code cycles_number
                          stabilized_threshold (i + 1) min_latency
                          (min_latency_cycles_number + 1) w')
             else MeasureStabilizedMinLatency_loop self code cycles_number
                    stabilized_threshold i min_latency min_latency_cycles_number w')
      else Some (min_latency, w))"
  by pat_completeness auto
termination
proof -
  have shorter: "length (tape w') < length (tape w)"
    if "Measure self code w = Some (x, w')"
    for self :: TSCBenchmarking and code :: "'u \<Rightarrow> 'u" and w w' :: "'u world" and x
    using that
    by (cases "BarrierType self")
       (auto simp: Measure_def Rdtsc_def Rdtscp_def Rdtscp_chip_def CpuId_def LFence_def
          MFence_def issue_def invoke_def split: if_splits option.splits list.splits)
  show ?thesis
    by (relation "measure (\<lambda>(self, code, cycles_number, stabilized_threshold, i, min_latency,
                              min_latency_cycles_number, w). length (tape w))")
       (auto dest: shorter)
qed

definition MeasureStabilizedMinLatency ::
  "TSCBenchmarking \<Rightarrow> size_t \<Rightarrow> size_t \<Rightarrow> ('u \<Rightarrow> 'u) \<Rightarrow> 'u world \<Rightarrow>
     (TimePoint \<times> 'u world) option" where
  "MeasureStabilizedMinLatency self cycles_number stabilized_threshold code w =
     MeasureStabilizedMinLatency_loop self code cycles_number stabilized_threshold 0 (- 1) 0 w"

definition MeasureOverhead ::
  "TSCBenchmarking \<Rightarrow> size_t \<Rightarrow> 'u world \<Rightarrow> ((TimePoint \<times> TimePoint) \<times> 'u world) option" where
  "MeasureOverhead self cycles_number w =
     (case MeasureMinLatency self cycles_number kEmptyCode w of
        None \<Rightarrow> None
      | Some (min_tsc_overhead, w1) \<Rightarrow>
          (case MeasureMinLatency self cycles_number kGetTime w1 of
             None \<Rightarrow> None
           | Some (min_clock_overhead, w2) \<Rightarrow>
               Some ((min_tsc_overhead, min_clock_overhead - min_tsc_overhead), w2)))"

definition MeasureStabilizedOverhead ::
  "TSCBenchmarking \<Rightarrow> size_t \<Rightarrow> size_t \<Rightarrow> 'u world \<Rightarrow>
     ((TimePoint \<times> TimePoint) \<times> 'u world) option" where
  "MeasureStabilizedOverhead self cycles_number stabilized_threshold w =
     (case MeasureStabilizedMinLatency self cycles_number stabilized_threshold kEmptyCode w of
        None \<Rightarrow> None
      | Some (min_tsc_overhead, w1) \<Rightarrow>
          (case MeasureStabilizedMinLatency self cycles_number stabilized_threshold kGetTime w1 of
             None \<Rightarrow> None
           | Some (min_clock_overhead, w2) \<Rightarrow>
               Some ((min_tsc_overhead, min_clock_overhead - min_tsc_overhead), w2)))"

text \<open>
  \<^verbatim>\<open>Initialize\<close>. The requests for real-time scheduling and page locking only
  print a line; the calibration runs with the default argument of
  \<^verbatim>\<open>MeasureOverhead\<close>.\<close>

definition Initialize ::
  "TSCBenchmarking \<Rightarrow> 'u world \<Rightarrow> (TSCBenchmarking \<times> 'u world) option" where
  "Initialize self w =
     (case MeasureOverhead self kDefaultCyclesNumber w of
        None \<Rightarrow> None
      | Some (overheads, w') \<Rightarrow>
          Some (self\<lparr>tsc_overhead_' := fst overheads, clock_overhead_' := snd overheads\<rparr>, w'))"

text \<open>The first loop of \<^verbatim>\<open>Run\<close>: the warm-up, on its counter \<^verbatim>\<open>r\<close>.\<close>

function Run_warmup ::
  "TSCBenchmarking \<Rightarrow> ('u \<Rightarrow> 'u) \<Rightarrow> Settings \<Rightarrow> size_t \<Rightarrow> 'u world \<Rightarrow> 'u world option" where
  "Run_warmup self code settings r w =
     (if r < cache_warmup_cycles_number_' settings then
        (if CheckCpuMigration self then
           (case StartTime_cpu (BarrierType self) w of
              None \<Rightarrow> None
            | Some ((start, cpu_number0), w1) \<Rightarrow>
                (case EndTime_cpu (BarrierType self) (invoke code w1) of
                   None \<Rightarrow> None
                 | Some ((end, cpu_number1), w2) \<Rightarrow>
                     Run_warmup self code settings (r + 1) w2))
         else
           (case StartTime (BarrierType self) w of
              None \<Rightarrow> None
            | Some (start, w1) \<Rightarrow>
                (case EndTime (BarrierType self) (invoke code w1) of
                   None \<Rightarrow> None
                 | Some (end, w2) \<Rightarrow> Run_warmup self code settings (r + 1) w2)))
      else Some w)"
  by pat_completeness auto
termination
proof -
  have shorter: "length (tape w2) < length (tape w)"
    if "StartTime b w = Some (x, w1)" and "EndTime b (invoke code w1) = Some (y, w2)"
    for b and code :: "'u \<Rightarrow> 'u" and w w1 w2 :: "'u world" and x y
    using that
    by (cases b)
       (auto simp: Rdtsc_def Rdtscp_def CpuId_def LFence_def MFence_def issue_def invoke_def
          split: option.splits list.splits)
  have shorter_cpu: "length (tape w2) < length (tape w)"
    if "StartTime_cpu b w = Some (x, w1)" and "EndTime_cpu b (invoke code w1) = Some (y, w2)"
    for b and code :: "'u \<Rightarrow> 'u" and w w1 w2 :: "'u world" and x y
    using that
    by (cases b)
       (auto simp: Rdtscp_chip_def CpuId_def LFence_def MFence_def issue_def invoke_def
          split: option.splits list.splits)
  show ?thesis
    by (relation "measure (\<lambda>(self, code, settings, r, w). length (tape w))")
       (auto dest: shorter shorter_cpu)
qed

text \<open>
  The second loop of \<^verbatim>\<open>Run\<close>: the measurement. \<open>Run_measurement_pass\<close> is the
  body of the loop, from the values of \<^verbatim>\<open>r\<close> and \<^verbatim>\<open>summary_time\<close> before a pass
  to their values after it. A pass that ends in \<^verbatim>\<open>continue\<close>, or that fails one
  of the two tests, leaves both unchanged.\<close>

definition Run_measurement_pass ::
  "TSCBenchmarking \<Rightarrow> ('u \<Rightarrow> 'u) \<Rightarrow> size_t \<times> 64 word \<Rightarrow> 'u world \<Rightarrow>
     ((size_t \<times> 64 word) \<times> 'u world) option" where
  "Run_measurement_pass self code state w =
     (case state of (r, summary_time) \<Rightarrow>
        (if CheckCpuMigration self then
           (case StartTime_cpu (BarrierType self) w of
              None \<Rightarrow> None
            | Some ((start, cpu_number0), w1) \<Rightarrow>
                (case EndTime_cpu (BarrierType self) (invoke code w1) of
                   None \<Rightarrow> None
                 | Some ((end, cpu_number1), w2) \<Rightarrow>
                     if cpu_number0 \<noteq> cpu_number1 then Some ((r, summary_time), w2)
                     else if end > start
                     then (let time = end - start in
                           if time > tsc_overhead_' self
                           then Some ((r + 1, summary_time + time), w2)
                           else Some ((r, summary_time), w2))
                     else Some ((r, summary_time), w2)))
         else
           (case StartTime (BarrierType self) w of
              None \<Rightarrow> None
            | Some (start, w1) \<Rightarrow>
                (case EndTime (BarrierType self) (invoke code w1) of
                   None \<Rightarrow> None
                 | Some (end, w2) \<Rightarrow>
                     if end > start
                     then (let time = end - start in
                           if time > tsc_overhead_' self
                           then Some ((r + 1, summary_time + time), w2)
                           else Some ((r, summary_time), w2))
                     else Some ((r, summary_time), w2)))))"

function Run_measurement ::
  "TSCBenchmarking \<Rightarrow> ('u \<Rightarrow> 'u) \<Rightarrow> Settings \<Rightarrow> size_t \<Rightarrow> 64 word \<Rightarrow> 'u world \<Rightarrow>
     (64 word \<times> 'u world) option" where
  "Run_measurement self code settings r summary_time w =
     (if r < cycles_number_' settings then
        (case Run_measurement_pass self code (r, summary_time) w of
           None \<Rightarrow> None
         | Some ((r', summary_time'), w') \<Rightarrow>
             Run_measurement self code settings r' summary_time' w')
      else Some (summary_time, w))"
  by pat_completeness auto
termination
proof -
  have shorter: "length (tape w') < length (tape w)"
    if "Run_measurement_pass self code st w = Some (x, w')"
    for self :: TSCBenchmarking and code :: "'u \<Rightarrow> 'u" and w w' :: "'u world" and st x
    using that
    by (cases "BarrierType self")
       (auto simp: Run_measurement_pass_def Rdtsc_def Rdtscp_def Rdtscp_chip_def CpuId_def
          LFence_def MFence_def issue_def invoke_def Let_def
          split: if_splits option.splits list.splits prod.splits)
  show ?thesis
    by (relation "measure (\<lambda>(self, code, settings, r, summary_time, w). length (tape w))")
       (auto dest: shorter)
qed

text \<open>
  \<^verbatim>\<open>Run\<close>. The division is on unsigned 64-bit integers; with a divisor 0 the
  program has no result, which is the error \<open>DivisionByZero\<close>.\<close>

definition Run ::
  "TSCBenchmarking \<Rightarrow> ('u \<Rightarrow> 'u) \<Rightarrow> Settings \<Rightarrow> 'u world \<Rightarrow>
     (error + (Result \<times> 'u world)) option" where
  "Run self code settings w =
     (case Run_warmup self code settings 0 (PinThread (cpu_' settings) w) of
        None \<Rightarrow> None
      | Some w1 \<Rightarrow>
          (case Run_measurement self code settings 0 0 w1 of
             None \<Rightarrow> None
           | Some (summary_time, w2) \<Rightarrow>
               if cycles_number_' settings = 0 then Some (Inl DivisionByZero)
               else Some (Inr (\<lparr>time_' = summary_time div cycles_number_' settings,
                                 overhead_' = tsc_overhead_' self\<rparr>, w2))))"


section \<open>Vocabulary of the specification\<close>

text \<open>
  The recursion equations of the loops are unfolded by hand, one pass at a time.\<close>

declare MeasureMinLatency_loop.simps [simp del]
declare MeasureStabilizedMinLatency_loop.simps [simp del]
declare Run_warmup.simps [simp del]
declare Run_measurement.simps [simp del]

text \<open>
  What one entry of the tape is read as: the timestamp that \<^verbatim>\<open>Rdtsc\<close> and
  \<^verbatim>\<open>Rdtscp\<close> return, and the core id that \<^verbatim>\<open>Rdtscp\<close> stores.\<close>

definition stamp :: "reading \<Rightarrow> TimePoint" where
  "stamp x = CombineRegisters (ucast (low x)) (ucast (high x))"

definition chip :: "reading \<Rightarrow> CpuId" where
  "chip x = aux x AND 0xFFFFFF"

text \<open>
  A sample is a start reading and an end reading. The loops read the tape two
  entries at a time.\<close>

fun samples :: "reading list \<Rightarrow> (reading \<times> reading) list" where
  "samples (x # y # rest) = (x, y) # samples rest"
| "samples [] = []"
| "samples [x] = []"

definition duration :: "reading \<times> reading \<Rightarrow> TimePoint" where
  "duration s = stamp (snd s) - stamp (fst s)"

text \<open>
  The tests of the loops on a sample: \<open>usable\<close> is the test of the calibration,
  \<open>retained\<close> the test of the measurement phase of \<^verbatim>\<open>Run\<close>.\<close>

definition same_core :: "TSCBenchmarking \<Rightarrow> reading \<times> reading \<Rightarrow> bool" where
  "same_core self s = (if CheckCpuMigration self then chip (fst s) = chip (snd s) else True)"

definition usable :: "TSCBenchmarking \<Rightarrow> reading \<times> reading \<Rightarrow> bool" where
  "usable self s = (same_core self s \<and> stamp (fst s) < stamp (snd s))"

definition retained :: "TSCBenchmarking \<Rightarrow> reading \<times> reading \<Rightarrow> bool" where
  "retained self s = (usable self s \<and> tsc_overhead_' self < duration s)"

text \<open>
  How many samples are read until \<open>n\<close> of them have passed the test \<open>P\<close>.\<close>

fun consumed :: "('a \<Rightarrow> bool) \<Rightarrow> nat \<Rightarrow> 'a list \<Rightarrow> nat" where
  "consumed P n [] = 0"
| "consumed P n (s # ss) =
     (if n = 0 then 0 else Suc (consumed P (if P s then n - 1 else n) ss))"

text \<open>
  The instructions of one timed section, by barrier, and the world after one timed
  section: two entries of the tape are gone and the operation has run once.\<close>

definition read_event :: "bool \<Rightarrow> event" where
  "read_event with_cpu = (if with_cpu then RDTSCP else RDTSC)"

fun start_events :: "bool \<Rightarrow> Barrier \<Rightarrow> event list" where
  "start_events c kTwoCpuId = [CPUID, read_event c, CPUID]"
| "start_events c b = [CPUID, read_event c]"

fun end_events :: "bool \<Rightarrow> Barrier \<Rightarrow> event list" where
  "end_events c kOneCpuId = [CPUID, read_event c]"
| "end_events c kLFence = [LFENCE, read_event c, CPUID]"
| "end_events c kMFence = [CPUID, read_event c, MFENCE]"
| "end_events c kRdtscp = [RDTSCP, CPUID]"
| "end_events c kTwoCpuId = [CPUID, read_event c, CPUID]"

definition section_events :: "bool \<Rightarrow> Barrier \<Rightarrow> event list" where
  "section_events c b = start_events c b @ [CALL] @ end_events c b"

definition advance :: "bool \<Rightarrow> Barrier \<Rightarrow> ('u \<Rightarrow> 'u) \<Rightarrow> 'u world \<Rightarrow> 'u world" where
  "advance c b code w =
     w\<lparr>tape := drop 2 (tape w), executed := executed w @ section_events c b,
       user := code (user w)\<rparr>"

text \<open>
  A run of \<^verbatim>\<open>Run\<close> on a tape: the warm-up reads the first
  \<open>2 * cache_warmup_cycles_number_'\<close> entries, the measurement phase reads on from
  there. \<open>measured\<close> are the samples that the measurement phase retains,
  \<open>attempts\<close> the number of timed sections of the whole run, and
  \<open>completes\<close> says that the tape is long enough for the run to return.\<close>

definition measurement_tape :: "Settings \<Rightarrow> reading list \<Rightarrow> reading list" where
  "measurement_tape s t = drop (2 * unat (cache_warmup_cycles_number_' s)) t"

definition measured :: "TSCBenchmarking \<Rightarrow> Settings \<Rightarrow> reading list \<Rightarrow> (reading \<times> reading) list" where
  "measured self s t =
     take (unat (cycles_number_' s)) (filter (retained self) (samples (measurement_tape s t)))"

definition completes :: "TSCBenchmarking \<Rightarrow> Settings \<Rightarrow> reading list \<Rightarrow> bool" where
  "completes self s t =
     (2 * unat (cache_warmup_cycles_number_' s) \<le> length t \<and>
      unat (cycles_number_' s)
        \<le> length (filter (retained self) (samples (measurement_tape s t))))"

definition attempts :: "TSCBenchmarking \<Rightarrow> Settings \<Rightarrow> reading list \<Rightarrow> nat" where
  "attempts self s t =
     unat (cache_warmup_cycles_number_' s) +
     consumed (retained self) (unat (cycles_number_' s)) (samples (measurement_tape s t))"

text \<open>
  The calibration: \<open>calibrated self n ss\<close> are the durations of the first \<open>n\<close>
  samples of \<open>ss\<close> that pass the test of the calibration, and \<open>clock_tape\<close> is
  what the first of the two calibrations of \<^verbatim>\<open>MeasureOverhead\<close> leaves of the tape
  for the second.\<close>

definition calibrated :: "TSCBenchmarking \<Rightarrow> nat \<Rightarrow> (reading \<times> reading) list \<Rightarrow> TimePoint list" where
  "calibrated self n ss = map duration (take n (filter (usable self) ss))"

definition clock_tape :: "TSCBenchmarking \<Rightarrow> size_t \<Rightarrow> reading list \<Rightarrow> reading list" where
  "clock_tape self n t = drop (2 * consumed (usable self) (unat n) (samples t)) t"

text \<open>
  The stabilized calibration, on the durations \<open>ds\<close> taken so far, in order. The
  current minimum is \<open>foldl min (- 1) ds\<close>. \<open>standing ds\<close> is the number of
  iterations since, and including, the one that set the current minimum;
  \<open>failed_to_beat ds\<close> is the number of iterations after that one, which all
  failed to beat it. \<open>stabilized\<close> is the exit test of the loop.\<close>

definition standing :: "TimePoint list \<Rightarrow> nat" where
  "standing ds = length (dropWhile (\<lambda>d. foldl min (- 1) ds < d) ds)"

definition failed_to_beat :: "TimePoint list \<Rightarrow> nat" where
  "failed_to_beat ds = standing ds - 1"

definition stabilized :: "size_t \<Rightarrow> size_t \<Rightarrow> TimePoint list \<Rightarrow> bool" where
  "stabilized n th ds = (unat n \<le> length ds \<or> unat th \<le> standing ds)"

section \<open>One timed section\<close>

lemmas machine_defs = Rdtsc_def Rdtscp_def Rdtscp_chip_def CpuId_def LFence_def MFence_def
  issue_def invoke_def stamp_def chip_def advance_def section_events_def read_event_def

lemma plain_section:
  assumes "tape w = x # y # rest"
  shows "\<exists>w1. StartTime b w = Some (stamp x, w1) \<and>
           EndTime b (invoke code w1) = Some (stamp y, advance False b code w)"
  using assms by (cases b) (simp_all add: machine_defs)

lemma cpu_section:
  assumes "tape w = x # y # rest"
  shows "\<exists>w1. StartTime_cpu b w = Some ((stamp x, chip x), w1) \<and>
           EndTime_cpu b (invoke code w1) = Some ((stamp y, chip y), advance True b code w)"
  using assms by (cases b) (simp_all add: machine_defs)

lemma Measure_step:
  assumes "tape w = x # y # rest"
  shows "Measure self code w =
     Some ((stamp x, stamp y, same_core self (x, y)),
           advance (CheckCpuMigration self) (BarrierType self) code w)"
proof (cases "CheckCpuMigration self")
  case True
  from cpu_section [OF assms, of "BarrierType self" code] True show ?thesis
    by (auto simp: Measure_def same_core_def)
next
  case False
  from plain_section [OF assms, of "BarrierType self" code] False show ?thesis
    by (auto simp: Measure_def same_core_def)
qed

lemma plain_short:
  assumes "length (tape w) < 2"
  shows "StartTime b w = None \<or>
         (\<exists>s w1. StartTime b w = Some (s, w1) \<and> EndTime b (invoke code w1) = None)"
  using assms by (cases b; cases "tape w"; cases "tl (tape w)") (simp_all add: machine_defs)

lemma cpu_short:
  assumes "length (tape w) < 2"
  shows "StartTime_cpu b w = None \<or>
         (\<exists>s w1. StartTime_cpu b w = Some (s, w1) \<and> EndTime_cpu b (invoke code w1) = None)"
  using assms by (cases b; cases "tape w"; cases "tl (tape w)") (simp_all add: machine_defs)

lemma Measure_short:
  assumes "length (tape w) < 2"
  shows "Measure self code w = None"
  using plain_short [OF assms, of "BarrierType self" code]
    cpu_short [OF assms, of "BarrierType self" code]
  by (auto simp: Measure_def)

section \<open>The loops of \<^verbatim>\<open>Run\<close>\<close>

lemma Run_measurement_done:
  "\<not> r < cycles_number_' s \<Longrightarrow> Run_measurement self code s r acc w = Some (acc, w)"
  by (subst Run_measurement.simps) simp

lemma Run_measurement_pass_short:
  assumes "length (tape w) < 2"
  shows "Run_measurement_pass self code st w = None"
  using plain_short [OF assms, of "BarrierType self" code]
    cpu_short [OF assms, of "BarrierType self" code]
  by (auto simp: Run_measurement_pass_def split: prod.splits)

lemma Run_measurement_pass_step:
  assumes "tape w = x # y # rest"
  shows "Run_measurement_pass self code (r, acc) w =
     Some (if retained self (x, y) then (r + 1, acc + duration (x, y)) else (r, acc),
           advance (CheckCpuMigration self) (BarrierType self) code w)"
proof (cases "CheckCpuMigration self")
  case True
  from cpu_section [OF assms, of "BarrierType self" code] True show ?thesis
    by (auto simp: Run_measurement_pass_def retained_def usable_def same_core_def
          duration_def Let_def)
next
  case False
  from plain_section [OF assms, of "BarrierType self" code] False show ?thesis
    by (auto simp: Run_measurement_pass_def retained_def usable_def same_core_def
          duration_def Let_def)
qed

lemma Run_measurement_short:
  assumes "length (tape w) < 2" and "r < cycles_number_' s"
  shows "Run_measurement self code s r acc w = None"
  using assms(2)
  by (subst Run_measurement.simps) (simp add: Run_measurement_pass_short [OF assms(1)])

lemma Run_measurement_step:
  assumes "tape w = x # y # rest" and "r < cycles_number_' s"
  shows "Run_measurement self code s r acc w =
     (if retained self (x, y)
      then Run_measurement self code s (r + 1) (acc + duration (x, y))
             (advance (CheckCpuMigration self) (BarrierType self) code w)
      else Run_measurement self code s r acc
             (advance (CheckCpuMigration self) (BarrierType self) code w))"
  using assms(2)
  by (subst Run_measurement.simps) (simp add: Run_measurement_pass_step [OF assms(1)])

lemma tape_advance: "tape (advance c b code w) = drop 2 (tape w)"
  by (simp add: advance_def)

lemma counter_step:
  fixes r n :: "64 word"
  assumes "r < n"
  shows "unat (r + 1) = Suc (unat r)" and "unat n - unat (r + 1) = unat n - unat r - 1"
    and "0 < unat n - unat r"
proof -
  from assms have "unat r < unat n" by (simp add: word_less_nat_alt)
  moreover have "unat n < 2 ^ LENGTH(64)" by (rule unsigned_less)
  ultimately have "unat r + unat (1 :: 64 word) < 2 ^ LENGTH(64)" by simp
  then have "unat (r + 1) = unat r + unat (1 :: 64 word)"
    by (rule unat_add_lem [THEN iffD1])
  then show a: "unat (r + 1) = Suc (unat r)" by simp
  from a show "unat n - unat (r + 1) = unat n - unat r - 1" by simp
  from assms show "0 < unat n - unat r" by (simp add: word_less_nat_alt)
qed

lemma counter_pos:
  fixes r n :: "64 word"
  shows "0 < unat n - unat r \<Longrightarrow> r < n"
  by (simp add: word_less_nat_alt)

lemma counter_done:
  fixes r n :: "64 word"
  shows "\<not> r < n \<Longrightarrow> unat n - unat r = 0"
  by (simp add: word_less_nat_alt)

lemma consumed_0 [simp]: "consumed P 0 ss = 0"
  by (cases ss) simp_all

lemma Run_measurement_returns:
  assumes "unat (cycles_number_' s) - unat r
             \<le> length (filter (retained self) (samples (tape w)))"
  shows "Run_measurement self code s r acc w =
     Some (acc + sum_list (map duration
             (take (unat (cycles_number_' s) - unat r)
                (filter (retained self) (samples (tape w))))),
           ((advance (CheckCpuMigration self) (BarrierType self) code) ^^
              consumed (retained self) (unat (cycles_number_' s) - unat r) (samples (tape w))) w)"
  using assms
proof (induction "tape w" arbitrary: w r acc rule: samples.induct)
  case (1 x y rest)
  let ?w' = "advance (CheckCpuMigration self) (BarrierType self) code w"
  have tw: "tape w = x # y # rest" using 1(2) by simp
  have tw': "rest = tape ?w'" by (simp add: tape_advance tw)
  show ?case
  proof (cases "r < cycles_number_' s")
    case False
    then show ?thesis
      by (simp add: Run_measurement_done counter_done)
  next
    case lt: True
    obtain m where m: "unat (cycles_number_' s) - unat r = Suc m"
      using counter_step(3) [OF lt] by (cases "unat (cycles_number_' s) - unat r") auto
    show ?thesis
    proof (cases "retained self (x, y)")
      case True
      have m': "unat (cycles_number_' s) - unat (r + 1) = m"
        using counter_step(2) [OF lt] m by simp
      have "m \<le> length (filter (retained self) (samples (tape ?w')))"
        using 1(3) True m tw tw' by simp
      from 1(1) [OF tw', of "r + 1" "acc + duration (x, y)", unfolded m', OF this]
      show ?thesis
        using True lt m tw tw' [symmetric]
        by (simp add: Run_measurement_step [OF tw lt] funpow_swap1 add.assoc)
    next
      case False
      have "unat (cycles_number_' s) - unat r \<le> length (filter (retained self) (samples (tape ?w')))"
        using 1(3) False tw tw' by simp
      from 1(1) [OF tw', of r acc, OF this]
      show ?thesis
        using False lt m tw tw' [symmetric]
        by (simp add: Run_measurement_step [OF tw lt] funpow_swap1)
    qed
  qed
next
  case 2
  have e: "samples (tape w) = []" using 2(1) [symmetric] by simp
  then have "\<not> r < cycles_number_' s"
    using 2(2) counter_step(3) [of r "cycles_number_' s"] by auto
  then show ?case using e by (simp add: Run_measurement_done counter_done)
next
  case (3 v)
  have e: "samples (tape w) = []" using 3(1) [symmetric] by simp
  then have "\<not> r < cycles_number_' s"
    using 3(2) counter_step(3) [of r "cycles_number_' s"] by auto
  then show ?case using e by (simp add: Run_measurement_done counter_done)
qed

lemma Run_measurement_spins:
  assumes "length (filter (retained self) (samples (tape w)))
             < unat (cycles_number_' s) - unat r"
  shows "Run_measurement self code s r acc w = None"
  using assms
proof (induction "tape w" arbitrary: w r acc rule: samples.induct)
  case (1 x y rest)
  let ?w' = "advance (CheckCpuMigration self) (BarrierType self) code w"
  have tw: "tape w = x # y # rest" using 1(2) by simp
  have tw': "rest = tape ?w'" by (simp add: tape_advance tw)
  have lt: "r < cycles_number_' s"
    using 1(3) by (intro counter_pos) simp
  show ?case
  proof (cases "retained self (x, y)")
    case True
    have "length (filter (retained self) (samples (tape ?w')))
            < unat (cycles_number_' s) - unat (r + 1)"
      using 1(3) True tw tw' counter_step(2) [OF lt] by simp
    from 1(1) [OF tw' this] show ?thesis
      using True by (simp add: Run_measurement_step [OF tw lt])
  next
    case False
    have "length (filter (retained self) (samples (tape ?w')))
            < unat (cycles_number_' s) - unat r"
      using 1(3) False tw tw' by simp
    from 1(1) [OF tw' this] show ?thesis
      using False by (simp add: Run_measurement_step [OF tw lt])
  qed
next
  case 2
  have lt: "r < cycles_number_' s"
    using 2(2) by (intro counter_pos) simp
  show ?case using 2(1) [symmetric] by (simp add: Run_measurement_short [OF _ lt])
next
  case (3 v)
  have lt: "r < cycles_number_' s"
    using 3(2) by (intro counter_pos) simp
  show ?case using 3(1) [symmetric] by (simp add: Run_measurement_short [OF _ lt])
qed

lemma tape_advances: "tape ((advance c b code ^^ k) w) = drop (2 * k) (tape w)"
  by (induction k) (simp_all add: tape_advance)

lemma user_advances: "user ((advance c b code ^^ k) w) = (code ^^ k) (user w)"
  by (induction k) (simp_all add: advance_def)

lemma concat_replicate_snoc: "concat (replicate k xs) @ xs = xs @ concat (replicate k xs)"
  by (induction k) simp_all

lemma executed_advances:
  "executed ((advance c b code ^^ k) w) = executed w @ concat (replicate k (section_events c b))"
  by (induction k) (simp_all add: advance_def concat_replicate_snoc)

lemma calls_section: "count_list (section_events c b) CALL = 1"
  by (cases b) (simp_all add: section_events_def read_event_def)

lemma calls_advances:
  "count_list (executed ((advance c b code ^^ k) w)) CALL = count_list (executed w) CALL + k"
  by (induction k) (simp_all add: advance_def calls_section)

lemma samples_length: "length (samples t) = length t div 2"
  by (induction t rule: samples.induct) simp_all

lemma Run_warmup_done:
  "\<not> r < cache_warmup_cycles_number_' s \<Longrightarrow> Run_warmup self code s r w = Some w"
  by (subst Run_warmup.simps) simp

lemma Run_warmup_short:
  assumes "length (tape w) < 2" and "r < cache_warmup_cycles_number_' s"
  shows "Run_warmup self code s r w = None"
  using plain_short [OF assms(1), of "BarrierType self" code]
    cpu_short [OF assms(1), of "BarrierType self" code] assms(2)
  by (subst Run_warmup.simps) auto

lemma Run_warmup_step:
  assumes "tape w = x # y # rest" and "r < cache_warmup_cycles_number_' s"
  shows "Run_warmup self code s r w =
     Run_warmup self code s (r + 1) (advance (CheckCpuMigration self) (BarrierType self) code w)"
proof (cases "CheckCpuMigration self")
  case True
  from cpu_section [OF assms(1), of "BarrierType self" code] True assms(2) show ?thesis
    by (subst Run_warmup.simps) auto
next
  case False
  from plain_section [OF assms(1), of "BarrierType self" code] False assms(2) show ?thesis
    by (subst Run_warmup.simps) auto
qed

lemma Run_warmup_returns:
  assumes "2 * (unat (cache_warmup_cycles_number_' s) - unat r) \<le> length (tape w)"
  shows "Run_warmup self code s r w =
     Some ((advance (CheckCpuMigration self) (BarrierType self) code ^^
              (unat (cache_warmup_cycles_number_' s) - unat r)) w)"
  using assms
proof (induction "tape w" arbitrary: w r rule: samples.induct)
  case (1 x y rest)
  let ?w' = "advance (CheckCpuMigration self) (BarrierType self) code w"
  have tw: "tape w = x # y # rest" using 1(2) by simp
  have tw': "rest = tape ?w'" by (simp add: tape_advance tw)
  show ?case
  proof (cases "r < cache_warmup_cycles_number_' s")
    case False
    then show ?thesis by (simp add: Run_warmup_done counter_done)
  next
    case lt: True
    obtain m where m: "unat (cache_warmup_cycles_number_' s) - unat r = Suc m"
      using counter_step(3) [OF lt]
      by (cases "unat (cache_warmup_cycles_number_' s) - unat r") auto
    have m': "unat (cache_warmup_cycles_number_' s) - unat (r + 1) = m"
      using counter_step(2) [OF lt] m by simp
    have "2 * m \<le> length (tape ?w')"
      using 1(3) m tw tw' [symmetric] by simp
    from 1(1) [OF tw', of "r + 1", unfolded m', OF this] show ?thesis
      using m by (simp add: Run_warmup_step [OF tw lt] funpow_swap1)
  qed
next
  case 2
  have "\<not> r < cache_warmup_cycles_number_' s"
    using 2 counter_step(3) [of r "cache_warmup_cycles_number_' s"] by auto
  then show ?case by (simp add: Run_warmup_done counter_done)
next
  case (3 v)
  have "length (tape w) = 1" using 3(1) [symmetric] by simp
  then have "\<not> r < cache_warmup_cycles_number_' s"
    using 3(2) counter_step(3) [of r "cache_warmup_cycles_number_' s"] by auto
  then show ?case by (simp add: Run_warmup_done counter_done)
qed

lemma Run_warmup_spins:
  assumes "length (tape w) < 2 * (unat (cache_warmup_cycles_number_' s) - unat r)"
  shows "Run_warmup self code s r w = None"
  using assms
proof (induction "tape w" arbitrary: w r rule: samples.induct)
  case (1 x y rest)
  let ?w' = "advance (CheckCpuMigration self) (BarrierType self) code w"
  have tw: "tape w = x # y # rest" using 1(2) by simp
  have tw': "rest = tape ?w'" by (simp add: tape_advance tw)
  have lt: "r < cache_warmup_cycles_number_' s"
    using 1(3) by (intro counter_pos) simp
  have "length (tape ?w') < 2 * (unat (cache_warmup_cycles_number_' s) - unat (r + 1))"
    using 1(3) tw tw' [symmetric] counter_step(2,3) [OF lt] by simp
  from 1(1) [OF tw' this] show ?case
    by (simp add: Run_warmup_step [OF tw lt])
next
  case 2
  have lt: "r < cache_warmup_cycles_number_' s"
    using 2(2) by (intro counter_pos) simp
  show ?case using 2(1) [symmetric] by (simp add: Run_warmup_short [OF _ lt])
next
  case (3 v)
  have lt: "r < cache_warmup_cycles_number_' s"
    using 3(2) by (intro counter_pos) simp
  show ?case using 3(1) [symmetric] by (simp add: Run_warmup_short [OF _ lt])
qed

section \<open>\<^verbatim>\<open>Run\<close> as a whole\<close>

lemma tape_PinThread: "tape (PinThread c w) = tape w"
  by (simp add: PinThread_def issue_def)

lemma Run_completes:
  assumes "completes self s (tape w)"
  shows "Run self code s w =
     (if cycles_number_' s = 0 then Some (Inl DivisionByZero)
      else Some (Inr (\<lparr>time_' = sum_list (map duration (measured self s (tape w)))
                                   div cycles_number_' s,
                        overhead_' = tsc_overhead_' self\<rparr>,
                      (advance (CheckCpuMigration self) (BarrierType self) code ^^
                         attempts self s (tape w)) (PinThread (cpu_' s) w))))"
proof -
  let ?adv = "advance (CheckCpuMigration self) (BarrierType self) code"
  let ?W = "unat (cache_warmup_cycles_number_' s)"
  let ?w0 = "PinThread (cpu_' s) w"
  let ?w1 = "(?adv ^^ ?W) ?w0"
  from assms have a: "2 * (?W - unat (0 :: 64 word)) \<le> length (tape ?w0)"
    by (simp add: completes_def tape_PinThread)
  have warm: "Run_warmup self code s 0 ?w0 = Some ?w1"
    using Run_warmup_returns [OF a, of self code] by simp
  have t1: "tape ?w1 = measurement_tape s (tape w)"
    by (simp add: tape_advances tape_PinThread measurement_tape_def)
  from assms have b: "unat (cycles_number_' s) - unat (0 :: 64 word)
      \<le> length (filter (retained self) (samples (tape ?w1)))"
    by (simp add: completes_def t1)
  have meas: "Run_measurement self code s 0 0 ?w1 =
      Some (sum_list (map duration (measured self s (tape w))),
            (?adv ^^ attempts self s (tape w)) ?w0)"
    using Run_measurement_returns [OF b, of code 0]
    unfolding attempts_def
    by (subst add.commute) (simp add: t1 measured_def funpow_add)
  show ?thesis
    by (simp add: Run_def warm meas)
qed

lemma Run_spins:
  assumes "\<not> completes self s (tape w)"
  shows "Run self code s w = None"
proof (cases "2 * unat (cache_warmup_cycles_number_' s) \<le> length (tape w)")
  case False
  then have "length (tape (PinThread (cpu_' s) w))
      < 2 * (unat (cache_warmup_cycles_number_' s) - unat (0 :: 64 word))"
    by (simp add: tape_PinThread)
  from Run_warmup_spins [OF this] show ?thesis
    by (simp add: Run_def)
next
  case True
  let ?adv = "advance (CheckCpuMigration self) (BarrierType self) code"
  let ?W = "unat (cache_warmup_cycles_number_' s)"
  let ?w0 = "PinThread (cpu_' s) w"
  let ?w1 = "(?adv ^^ ?W) ?w0"
  from True have a: "2 * (?W - unat (0 :: 64 word)) \<le> length (tape ?w0)"
    by (simp add: tape_PinThread)
  have warm: "Run_warmup self code s 0 ?w0 = Some ?w1"
    using Run_warmup_returns [OF a, of self code] by simp
  have t1: "tape ?w1 = measurement_tape s (tape w)"
    by (simp add: tape_advances tape_PinThread measurement_tape_def)
  from assms True have "length (filter (retained self) (samples (tape ?w1)))
      < unat (cycles_number_' s) - unat (0 :: 64 word)"
    by (simp add: completes_def t1)
  from Run_measurement_spins [OF this] show ?thesis
    by (simp add: Run_def warm)
qed

section \<open>\<^verbatim>\<open>MeasureTime\<close>\<close>

text \<open>
  Claim C7. On any two next readings \<open>x\<close> and \<open>y\<close> of the counter,
  \<^verbatim>\<open>MeasureTime\<close> returns \<open>stamp y - stamp x\<close>, the difference of the end reading
  and the start reading in unsigned 64-bit arithmetic. It reads the counter twice,
  and the operation is called once, after the instructions of the start reading and
  before those of the end reading. The result is the same whatever the core ids of
  the two readings, whatever their order, whatever the calibrated overhead and
  whether or not the object detects migration: nothing is filtered, averaged or
  subtracted, and there is no warm-up.\<close>

theorem MeasureTime_raw_difference:
  assumes "tape w = x # y # rest"
  shows "MeasureTime self code w =
     Some (stamp y - stamp x,
           w\<lparr>tape := rest,
             executed := executed w @ start_events False (BarrierType self) @ [CALL] @
                           end_events False (BarrierType self),
             user := code (user w)\<rparr>)"
  using plain_section [OF assms, of "BarrierType self" code] assms
  by (auto simp: MeasureTime_def advance_def section_events_def)

theorem MeasureTime_raw_difference_witness:
  "MeasureTime \<lparr>CheckCpuMigration = True, BarrierType = kLFence, tsc_overhead_' = 50,
                 clock_overhead_' = 0\<rparr> Suc
     \<lparr>tape = [\<lparr>low = 100, high = 0, aux = 0\<rparr>, \<lparr>low = 40, high = 0, aux = 1\<rparr>],
      executed = [], user = 0\<rparr> =
   Some (18446744073709551556,
         \<lparr>tape = [], executed = [CPUID, RDTSC, CALL, LFENCE, RDTSC, CPUID], user = 1\<rparr>)"
  using MeasureTime_raw_difference [of
      "\<lparr>tape = [\<lparr>low = 100, high = 0, aux = 0\<rparr>, \<lparr>low = 40, high = 0, aux = 1\<rparr>],
        executed = [], user = 0\<rparr>"
      "\<lparr>low = 100, high = 0, aux = 0\<rparr>" "\<lparr>low = 40, high = 0, aux = 1\<rparr>" "[]"
      "\<lparr>CheckCpuMigration = True, BarrierType = kLFence, tsc_overhead_' = 50,
        clock_overhead_' = 0\<rparr>" Suc]
  by (simp add: stamp_def CombineRegisters_def read_event_def)

section \<open>The division at the end of \<^verbatim>\<open>Run\<close>\<close>

text \<open>
  Claim C10. With \<open>cycles_number_'\<close> at least 1, \<^verbatim>\<open>Run\<close> never ends in a division
  by zero. With \<open>cycles_number_' = 0\<close> the measurement loop is not entered, and as
  soon as the warm-up has completed the division of \<^verbatim>\<open>summary_time\<close> is by zero.\<close>

theorem Run_division_by_zero:
  "(cycles_number_' s \<noteq> 0 \<longrightarrow> Run self code s w \<noteq> Some (Inl DivisionByZero)) \<and>
   (cycles_number_' s = 0 \<and> 2 * unat (cache_warmup_cycles_number_' s) \<le> length (tape w)
      \<longrightarrow> Run self code s w = Some (Inl DivisionByZero))"
proof (intro conjI impI)
  assume "cycles_number_' s \<noteq> 0"
  then show "Run self code s w \<noteq> Some (Inl DivisionByZero)"
    by (cases "completes self s (tape w)") (simp_all add: Run_completes Run_spins)
next
  assume "cycles_number_' s = 0 \<and> 2 * unat (cache_warmup_cycles_number_' s) \<le> length (tape w)"
  then have "completes self s (tape w)" and "cycles_number_' s = 0"
    by (simp_all add: completes_def)
  then show "Run self code s w = Some (Inl DivisionByZero)"
    by (simp add: Run_completes)
qed

theorem Run_division_by_zero_witness:
  "Run \<lparr>CheckCpuMigration = False, BarrierType = kOneCpuId, tsc_overhead_' = 10,
         clock_overhead_' = 0\<rparr> Suc
       \<lparr>cycles_number_' = 1, cpu_' = 0, cache_warmup_cycles_number_' = 0\<rparr>
       \<lparr>tape = [\<lparr>low = 100, high = 0, aux = 0\<rparr>, \<lparr>low = 140, high = 0, aux = 0\<rparr>],
        executed = [], user = 0\<rparr> \<noteq> Some (Inl DivisionByZero) \<and>
   Run \<lparr>CheckCpuMigration = False, BarrierType = kOneCpuId, tsc_overhead_' = 10,
         clock_overhead_' = 0\<rparr> Suc
       \<lparr>cycles_number_' = 0, cpu_' = 0, cache_warmup_cycles_number_' = 1\<rparr>
       \<lparr>tape = [\<lparr>low = 100, high = 0, aux = 0\<rparr>, \<lparr>low = 140, high = 0, aux = 0\<rparr>],
        executed = [], user = 0\<rparr> = Some (Inl DivisionByZero)"
  using Run_division_by_zero [of
      "\<lparr>cycles_number_' = 1, cpu_' = 0, cache_warmup_cycles_number_' = 0\<rparr>"
      "\<lparr>CheckCpuMigration = False, BarrierType = kOneCpuId, tsc_overhead_' = 10,
        clock_overhead_' = 0\<rparr>" Suc
      "\<lparr>tape = [\<lparr>low = 100, high = 0, aux = 0\<rparr>, \<lparr>low = 140, high = 0, aux = 0\<rparr>],
        executed = [], user = 0\<rparr>"]
    Run_division_by_zero [of
      "\<lparr>cycles_number_' = 0, cpu_' = 0, cache_warmup_cycles_number_' = 1\<rparr>"
      "\<lparr>CheckCpuMigration = False, BarrierType = kOneCpuId, tsc_overhead_' = 10,
        clock_overhead_' = 0\<rparr>" Suc
      "\<lparr>tape = [\<lparr>low = 100, high = 0, aux = 0\<rparr>, \<lparr>low = 140, high = 0, aux = 0\<rparr>],
        executed = [], user = 0\<rparr>"]
  by simp


lemma Run_measurement_outcome:
  "map_option fst (Run_measurement self code s r acc w) =
     (if unat (cycles_number_' s) - unat r \<le> length (filter (retained self) (samples (tape w)))
      then Some (acc + sum_list (map duration
             (take (unat (cycles_number_' s) - unat r)
                (filter (retained self) (samples (tape w))))))
      else None)"
  by (simp add: Run_measurement_returns Run_measurement_spins)

lemma Run_outcome:
  "map_option (map_sum id fst) (Run self code s w) =
     (if completes self s (tape w)
      then (if cycles_number_' s = 0 then Some (Inl DivisionByZero)
            else Some (Inr \<lparr>time_' = sum_list (map duration (measured self s (tape w)))
                                       div cycles_number_' s,
                             overhead_' = tsc_overhead_' self\<rparr>))
      else None)"
  by (simp add: Run_completes Run_spins)

lemma length_measured:
  "completes self s t \<Longrightarrow> length (measured self s t) = unat (cycles_number_' s)"
  by (simp add: completes_def measured_def)

lemma retained_measured: "m \<in> set (measured self s t) \<Longrightarrow> retained self m"
  by (auto simp: measured_def dest: in_set_takeD)

lemma unat_sum_list:
  fixes ws :: "64 word list"
  assumes "sum_list (map unat ws) < 2 ^ 64"
  shows "unat (sum_list ws) = sum_list (map unat ws)"
  using assms
proof (induction ws)
  case Nil
  then show ?case by simp
next
  case (Cons a ws)
  then have ih: "unat (sum_list ws) = sum_list (map unat ws)" by simp
  with Cons.prems have "unat a + unat (sum_list ws) < 2 ^ LENGTH(64)" by simp
  then have "unat (a + sum_list ws) = unat a + unat (sum_list ws)"
    by (rule unat_add_lem [THEN iffD1])
  with ih show ?case by simp
qed

lemma sum_list_lower:
  fixes f :: "'a \<Rightarrow> nat"
  assumes "\<And>x. x \<in> set xs \<Longrightarrow> c \<le> f x"
  shows "length xs * c \<le> sum_list (map f xs)"
  using assms by (induction xs) (simp_all add: add_mono)

lemma Run_returns_iff:
  "Run self code s w = Some (Inr (res, w')) \<Longrightarrow>
     completes self s (tape w) \<and> cycles_number_' s \<noteq> 0 \<and>
     time_' res = sum_list (map duration (measured self s (tape w))) div cycles_number_' s \<and>
     overhead_' res = tsc_overhead_' self"
  by (cases "completes self s (tape w)")
     (auto simp: Run_completes Run_spins split: if_splits)

text \<open>
  As long as the sum of the durations fits in 64 bits, the quotient of \<^verbatim>\<open>Run\<close>
  is the quotient of the natural numbers.\<close>

lemma Run_time_no_wrap:
  assumes "Run self code s w = Some (Inr (res, w'))"
    and "sum_list (map (\<lambda>m. unat (duration m)) (measured self s (tape w))) < 2 ^ 64"
  shows "unat (time_' res) =
     sum_list (map (\<lambda>m. unat (duration m)) (measured self s (tape w)))
       div unat (cycles_number_' s)"
proof -
  have "unat (sum_list (map duration (measured self s (tape w)))) =
      sum_list (map (\<lambda>m. unat (duration m)) (measured self s (tape w)))"
    using unat_sum_list [of "map duration (measured self s (tape w))"] assms(2)
    by (simp add: comp_def)
  with Run_returns_iff [OF assms(1)] show ?thesis
    by (simp add: unat_div)
qed

section \<open>The result of \<^verbatim>\<open>Run\<close>\<close>

text \<open>
  Claim C1, as amended. For every operation, every object and every settings with
  \<open>cycles_number_'\<close> at least 1, on every tape that is long enough for the run to
  return, and as long as the sum of the durations of the retained samples fits in
  64 bits, \<^verbatim>\<open>Run\<close> returns a \<^verbatim>\<open>Result\<close> whose \<open>time_'\<close> is the sum of the
  durations of the retained samples divided by \<open>cycles_number_'\<close>, sum and
  quotient being those of the natural numbers, and whose \<open>overhead_'\<close> is the
  calibrated counter overhead \<open>tsc_overhead_'\<close> of the object, where
  \<^verbatim>\<open>Initialize\<close> has stored the counter floor of the calibration
  (\<open>Initialize_stores_floors\<close> below). The retained samples are the first
  \<open>cycles_number_'\<close> samples of the measurement phase that pass its tests. Both
  fields are counts of ticks of the counter: \<^verbatim>\<open>Run\<close> applies no factor to them.\<close>

theorem Run_result:
  assumes "cycles_number_' s \<noteq> 0" and "completes self s (tape w)"
    and "sum_list (map (\<lambda>m. unat (duration m)) (measured self s (tape w))) < 2 ^ 64"
  shows "Run self code s w =
           Some (Inr (\<lparr>time_' = sum_list (map duration (measured self s (tape w)))
                                  div cycles_number_' s,
                        overhead_' = tsc_overhead_' self\<rparr>,
                      (advance (CheckCpuMigration self) (BarrierType self) code ^^
                         attempts self s (tape w)) (PinThread (cpu_' s) w))) \<and>
         unat (sum_list (map duration (measured self s (tape w))) div cycles_number_' s) =
           sum_list (map (\<lambda>m. unat (duration m)) (measured self s (tape w)))
             div unat (cycles_number_' s) \<and>
         length (measured self s (tape w)) = unat (cycles_number_' s)"
proof -
  have "unat (sum_list (map duration (measured self s (tape w)))) =
      sum_list (map (\<lambda>m. unat (duration m)) (measured self s (tape w)))"
    using unat_sum_list [of "map duration (measured self s (tape w))"] assms(3)
    by (simp add: comp_def)
  then show ?thesis
    using assms(1,2) by (simp add: Run_completes length_measured unat_div)
qed

theorem Run_result_witness:
  "map_option (map_sum id fst)
     (Run \<lparr>CheckCpuMigration = True, BarrierType = kRdtscp, tsc_overhead_' = 10,
            clock_overhead_' = 0\<rparr> Suc
          \<lparr>cycles_number_' = 2, cpu_' = 0, cache_warmup_cycles_number_' = 1\<rparr>
          \<lparr>tape = [\<lparr>low = 5, high = 0, aux = 0\<rparr>, \<lparr>low = 1000, high = 0, aux = 0\<rparr>,
                   \<lparr>low = 100, high = 0, aux = 0\<rparr>, \<lparr>low = 140, high = 0, aux = 0\<rparr>,
                   \<lparr>low = 200, high = 0, aux = 0\<rparr>, \<lparr>low = 260, high = 0, aux = 1\<rparr>,
                   \<lparr>low = 300, high = 0, aux = 0\<rparr>, \<lparr>low = 305, high = 0, aux = 0\<rparr>,
                   \<lparr>low = 400, high = 0, aux = 0\<rparr>, \<lparr>low = 390, high = 0, aux = 0\<rparr>,
                   \<lparr>low = 500, high = 0, aux = 0\<rparr>, \<lparr>low = 560, high = 0, aux = 0\<rparr>],
           executed = [], user = 0\<rparr>) =
   Some (Inr \<lparr>time_' = 50, overhead_' = 10\<rparr>) \<and>
   unat (50 :: 64 word) = (40 + 60) div 2"
  using Run_result [of
      "\<lparr>cycles_number_' = 2, cpu_' = 0, cache_warmup_cycles_number_' = 1\<rparr>"
      "\<lparr>CheckCpuMigration = True, BarrierType = kRdtscp, tsc_overhead_' = 10,
        clock_overhead_' = 0\<rparr>"
      "\<lparr>tape = [\<lparr>low = 5, high = 0, aux = 0\<rparr>, \<lparr>low = 1000, high = 0, aux = 0\<rparr>,
                \<lparr>low = 100, high = 0, aux = 0\<rparr>, \<lparr>low = 140, high = 0, aux = 0\<rparr>,
                \<lparr>low = 200, high = 0, aux = 0\<rparr>, \<lparr>low = 260, high = 0, aux = 1\<rparr>,
                \<lparr>low = 300, high = 0, aux = 0\<rparr>, \<lparr>low = 305, high = 0, aux = 0\<rparr>,
                \<lparr>low = 400, high = 0, aux = 0\<rparr>, \<lparr>low = 390, high = 0, aux = 0\<rparr>,
                \<lparr>low = 500, high = 0, aux = 0\<rparr>, \<lparr>low = 560, high = 0, aux = 0\<rparr>],
        executed = [], user = 0\<rparr>" Suc]
  by (simp add: completes_def measured_def measurement_tape_def retained_def usable_def
        same_core_def duration_def stamp_def chip_def CombineRegisters_def)

text \<open>
  Without the condition on the sum the claim fails: \<^verbatim>\<open>summary_time\<close> is an
  unsigned 64-bit integer and wraps around. Two retained samples of \<open>2 ^ 63\<close>
  ticks each have the sum \<open>2 ^ 64\<close> and the quotient \<open>2 ^ 63\<close>; \<^verbatim>\<open>Run\<close> returns
  the time 0.\<close>

theorem Run_result_counterexample:
  "map_option (map_sum id fst)
     (Run \<lparr>CheckCpuMigration = False, BarrierType = kOneCpuId, tsc_overhead_' = 0,
            clock_overhead_' = 0\<rparr> Suc
          \<lparr>cycles_number_' = 2, cpu_' = 0, cache_warmup_cycles_number_' = 0\<rparr>
          \<lparr>tape = [\<lparr>low = 0, high = 0, aux = 0\<rparr>, \<lparr>low = 0, high = 2147483648, aux = 0\<rparr>,
                   \<lparr>low = 0, high = 0, aux = 0\<rparr>, \<lparr>low = 0, high = 2147483648, aux = 0\<rparr>],
           executed = [], user = 0\<rparr>) =
   Some (Inr \<lparr>time_' = 0, overhead_' = 0\<rparr>) \<and>
   map (\<lambda>m. unat (duration m))
     (measured \<lparr>CheckCpuMigration = False, BarrierType = kOneCpuId, tsc_overhead_' = 0,
                 clock_overhead_' = 0\<rparr>
        \<lparr>cycles_number_' = 2, cpu_' = 0, cache_warmup_cycles_number_' = 0\<rparr>
        [\<lparr>low = 0, high = 0, aux = 0\<rparr>, \<lparr>low = 0, high = 2147483648, aux = 0\<rparr>,
         \<lparr>low = 0, high = 0, aux = 0\<rparr>, \<lparr>low = 0, high = 2147483648, aux = 0\<rparr>]) =
   [9223372036854775808, 9223372036854775808] \<and>
   (9223372036854775808 + 9223372036854775808) div (2 :: nat) = 9223372036854775808 \<and>
   unat (0 :: 64 word) \<noteq> 9223372036854775808"
  by (simp add: Run_outcome completes_def measured_def measurement_tape_def retained_def
        usable_def same_core_def duration_def stamp_def chip_def CombineRegisters_def)

section \<open>One pass of the measurement loop\<close>

text \<open>
  Claim C2, as amended. In a pass of the measurement loop over a start reading \<open>x\<close>
  and an end reading \<open>y\<close>, the sample is counted (\<^verbatim>\<open>r\<close> becomes \<open>r + 1\<close>, which
  is not \<open>r\<close>) and its duration is added to \<^verbatim>\<open>summary_time\<close> if and only if the
  end reading is greater than the start reading, the duration \<open>stamp y - stamp x\<close>
  is greater than \<open>tsc_overhead_'\<close> and, when the object detects migration, the two
  readings carry the same core id. In every other case \<^verbatim>\<open>r\<close> and
  \<^verbatim>\<open>summary_time\<close> are unchanged, and the loop goes on to read the next sample.\<close>

theorem Run_measurement_pass_counts:
  assumes "tape w = x # y # rest"
  shows "Run_measurement_pass self code (r, acc) w =
     Some (if same_core self (x, y) \<and> stamp x < stamp y \<and>
              tsc_overhead_' self < stamp y - stamp x
           then (r + 1, acc + (stamp y - stamp x)) else (r, acc),
           advance (CheckCpuMigration self) (BarrierType self) code w) \<and>
         r + 1 \<noteq> r"
  using Run_measurement_pass_step [OF assms, of self code r acc]
  by (simp add: retained_def usable_def duration_def)

theorem Run_measurement_pass_counts_witness:
  "Run_measurement_pass
     \<lparr>CheckCpuMigration = True, BarrierType = kOneCpuId, tsc_overhead_' = 10,
      clock_overhead_' = 0\<rparr> Suc (0, 0)
     \<lparr>tape = [\<lparr>low = 100, high = 0, aux = 3\<rparr>, \<lparr>low = 140, high = 0, aux = 3\<rparr>],
      executed = [], user = 0\<rparr> =
   Some ((1, 40),
         \<lparr>tape = [], executed = [CPUID, RDTSCP, CALL, CPUID, RDTSCP], user = 1\<rparr>)"
  using Run_measurement_pass_counts [of
      "\<lparr>tape = [\<lparr>low = 100, high = 0, aux = 3\<rparr>, \<lparr>low = 140, high = 0, aux = 3\<rparr>],
        executed = [], user = 0\<rparr>"
      "\<lparr>low = 100, high = 0, aux = 3\<rparr>" "\<lparr>low = 140, high = 0, aux = 3\<rparr>" "[]"
      "\<lparr>CheckCpuMigration = True, BarrierType = kOneCpuId, tsc_overhead_' = 10,
        clock_overhead_' = 0\<rparr>" Suc 0 0]
  by (simp add: same_core_def stamp_def chip_def CombineRegisters_def advance_def
        section_events_def read_event_def)

text \<open>
  The claim as stated has the two tests on the readings only. With migration
  detection, a sample that passes both tests and has two different core ids is
  not counted.\<close>

theorem Run_measurement_pass_counterexample:
  "stamp \<lparr>low = 100, high = 0, aux = 0\<rparr> < stamp \<lparr>low = 140, high = 0, aux = 1\<rparr> \<and>
   tsc_overhead_' \<lparr>CheckCpuMigration = True, BarrierType = kOneCpuId, tsc_overhead_' = 10,
                    clock_overhead_' = 0\<rparr>
     < stamp \<lparr>low = 140, high = 0, aux = 1\<rparr> - stamp \<lparr>low = 100, high = 0, aux = 0\<rparr> \<and>
   Run_measurement_pass
     \<lparr>CheckCpuMigration = True, BarrierType = kOneCpuId, tsc_overhead_' = 10,
      clock_overhead_' = 0\<rparr> Suc (0, 0)
     \<lparr>tape = [\<lparr>low = 100, high = 0, aux = 0\<rparr>, \<lparr>low = 140, high = 0, aux = 1\<rparr>],
      executed = [], user = 0\<rparr> =
   Some ((0, 0),
         \<lparr>tape = [], executed = [CPUID, RDTSCP, CALL, CPUID, RDTSCP], user = 1\<rparr>)"
  by (simp add: Run_measurement_pass_def machine_defs CombineRegisters_def)

section \<open>Samples that straddle a migration\<close>

text \<open>
  Claim C3. With migration detection, a pass of the measurement loop over a sample
  whose two core ids differ leaves \<^verbatim>\<open>r\<close> and \<^verbatim>\<open>summary_time\<close> as they were: the
  sample adds nothing to the sum and does not count. The loop then goes on from
  the next reading with the same \<^verbatim>\<open>r\<close> and \<^verbatim>\<open>summary_time\<close>, and it returns
  exactly when the later samples hold the missing number of retained ones; the sum
  is then made of those only. On a tape with fewer retained samples the loop has
  not returned when the tape ends.\<close>

theorem Run_migrated_sample_discarded:
  assumes "CheckCpuMigration self" and "tape w = x # y # rest" and "chip x \<noteq> chip y"
    and "r < cycles_number_' s"
  shows "Run_measurement_pass self code (r, acc) w =
           Some ((r, acc), advance True (BarrierType self) code w) \<and>
         Run_measurement self code s r acc w =
           Run_measurement self code s r acc (advance True (BarrierType self) code w) \<and>
         map_option fst (Run_measurement self code s r acc w) =
           (if unat (cycles_number_' s) - unat r
                 \<le> length (filter (retained self) (samples rest))
            then Some (acc + sum_list (map duration
                   (take (unat (cycles_number_' s) - unat r)
                      (filter (retained self) (samples rest)))))
            else None)"
proof -
  have no: "\<not> retained self (x, y)"
    using assms(1,3) by (simp add: retained_def usable_def same_core_def)
  have a: "Run_measurement_pass self code (r, acc) w =
      Some ((r, acc), advance True (BarrierType self) code w)"
    using Run_measurement_pass_step [OF assms(2), of self code r acc] no assms(1) by simp
  have b: "Run_measurement self code s r acc w =
      Run_measurement self code s r acc (advance True (BarrierType self) code w)"
    using Run_measurement_step [OF assms(2,4), of self code acc] no assms(1) by simp
  have c: "filter (retained self) (samples (tape w)) = filter (retained self) (samples rest)"
    using no assms(2) by simp
  show ?thesis
    using a b Run_measurement_outcome [of self code s r acc w] by (simp add: c)
qed

theorem Run_migrated_sample_discarded_witness:
  "map_option fst
     (Run_measurement
        \<lparr>CheckCpuMigration = True, BarrierType = kOneCpuId, tsc_overhead_' = 10,
         clock_overhead_' = 0\<rparr> Suc
        \<lparr>cycles_number_' = 1, cpu_' = 0, cache_warmup_cycles_number_' = 0\<rparr> 0 0
        \<lparr>tape = [\<lparr>low = 100, high = 0, aux = 0\<rparr>, \<lparr>low = 140, high = 0, aux = 1\<rparr>,
                 \<lparr>low = 200, high = 0, aux = 1\<rparr>, \<lparr>low = 225, high = 0, aux = 1\<rparr>],
         executed = [], user = 0\<rparr>) = Some 25"
  using Run_migrated_sample_discarded [of
      "\<lparr>CheckCpuMigration = True, BarrierType = kOneCpuId, tsc_overhead_' = 10,
        clock_overhead_' = 0\<rparr>"
      "\<lparr>tape = [\<lparr>low = 100, high = 0, aux = 0\<rparr>, \<lparr>low = 140, high = 0, aux = 1\<rparr>,
                \<lparr>low = 200, high = 0, aux = 1\<rparr>, \<lparr>low = 225, high = 0, aux = 1\<rparr>],
        executed = [], user = 0\<rparr>"
      "\<lparr>low = 100, high = 0, aux = 0\<rparr>" "\<lparr>low = 140, high = 0, aux = 1\<rparr>"
      "[\<lparr>low = 200, high = 0, aux = 1\<rparr>, \<lparr>low = 225, high = 0, aux = 1\<rparr>]"
      0 "\<lparr>cycles_number_' = 1, cpu_' = 0, cache_warmup_cycles_number_' = 0\<rparr>" Suc 0,
      THEN conjunct2, THEN conjunct2]
  by (simp add: retained_def usable_def same_core_def duration_def stamp_def chip_def
        CombineRegisters_def)

section \<open>The warm-up\<close>

lemma user_PinThread: "user (PinThread c w) = user w"
  by (simp add: PinThread_def issue_def)

lemma calls_PinThread: "count_list (executed (PinThread c w)) CALL = count_list (executed w) CALL"
  by (simp add: PinThread_def issue_def)

text \<open>
  Claim C9. Let the first \<open>2 * cache_warmup_cycles_number_'\<close> entries of the tape
  be \<open>pre\<close> and the rest be \<open>t\<close>. Then \<^verbatim>\<open>Run\<close> returns exactly when \<open>t\<close> holds
  \<open>cycles_number_'\<close> retained samples, and its \<^verbatim>\<open>Result\<close> is computed from \<open>t\<close>
  alone. In the world that \<^verbatim>\<open>Run\<close> returns, the operation has been called
  \<open>cache_warmup_cycles_number_'\<close> times more than the measurement loop has made
  passes, and the number of these passes depends on \<open>t\<close> alone: the warm-up of
  \<^verbatim>\<open>Run\<close> calls the operation exactly \<open>cache_warmup_cycles_number_'\<close> times. The
  same run without warm-up on \<open>t\<close> returns the same \<^verbatim>\<open>Result\<close>, after the
  passes of the measurement loop only. The warm-up loop by itself reads exactly
  \<open>pre\<close>, and the sum of the measurement phase that follows it is the sum of the
  measurement phase on \<open>t\<close>: no reading of \<open>pre\<close> has any effect on the sum, on
  the number of retained samples or on the \<^verbatim>\<open>Result\<close>.\<close>

theorem Run_warmup_frame:
  assumes "tape w = pre @ t" and "length pre = 2 * unat (cache_warmup_cycles_number_' s)"
  shows "Run self code s w =
           (if unat (cycles_number_' s) \<le> length (filter (retained self) (samples t))
            then (if cycles_number_' s = 0 then Some (Inl DivisionByZero)
                  else Some (Inr (\<lparr>time_' = sum_list (map duration
                                       (take (unat (cycles_number_' s))
                                          (filter (retained self) (samples t))))
                                     div cycles_number_' s,
                                   overhead_' = tsc_overhead_' self\<rparr>,
                                 (advance (CheckCpuMigration self) (BarrierType self) code ^^
                                    (unat (cache_warmup_cycles_number_' s) +
                                     consumed (retained self) (unat (cycles_number_' s))
                                       (samples t)))
                                   (PinThread (cpu_' s) w))))
            else None) \<and>
         user ((advance (CheckCpuMigration self) (BarrierType self) code ^^
                  (unat (cache_warmup_cycles_number_' s) +
                   consumed (retained self) (unat (cycles_number_' s)) (samples t)))
                 (PinThread (cpu_' s) w)) =
           (code ^^ (unat (cache_warmup_cycles_number_' s) +
                     consumed (retained self) (unat (cycles_number_' s)) (samples t)))
             (user w) \<and>
         count_list (executed
             ((advance (CheckCpuMigration self) (BarrierType self) code ^^
                 (unat (cache_warmup_cycles_number_' s) +
                  consumed (retained self) (unat (cycles_number_' s)) (samples t)))
                (PinThread (cpu_' s) w))) CALL =
           count_list (executed w) CALL + unat (cache_warmup_cycles_number_' s) +
           consumed (retained self) (unat (cycles_number_' s)) (samples t) \<and>
         tape ((advance (CheckCpuMigration self) (BarrierType self) code ^^
                  (unat (cache_warmup_cycles_number_' s) +
                   consumed (retained self) (unat (cycles_number_' s)) (samples t)))
                 (PinThread (cpu_' s) w)) =
           drop (2 * consumed (retained self) (unat (cycles_number_' s)) (samples t)) t \<and>
         Run self code (s\<lparr>cache_warmup_cycles_number_' := 0\<rparr>) (w\<lparr>tape := t\<rparr>) =
           (if unat (cycles_number_' s) \<le> length (filter (retained self) (samples t))
            then (if cycles_number_' s = 0 then Some (Inl DivisionByZero)
                  else Some (Inr (\<lparr>time_' = sum_list (map duration
                                       (take (unat (cycles_number_' s))
                                          (filter (retained self) (samples t))))
                                     div cycles_number_' s,
                                   overhead_' = tsc_overhead_' self\<rparr>,
                                 (advance (CheckCpuMigration self) (BarrierType self) code ^^
                                    consumed (retained self) (unat (cycles_number_' s))
                                      (samples t))
                                   (PinThread (cpu_' s) (w\<lparr>tape := t\<rparr>)))))
            else None) \<and>
         (\<exists>w1. Run_warmup self code s 0 w = Some w1 \<and> tape w1 = t \<and>
            user w1 = (code ^^ unat (cache_warmup_cycles_number_' s)) (user w) \<and>
            count_list (executed w1) CALL =
              count_list (executed w) CALL + unat (cache_warmup_cycles_number_' s) \<and>
            map_option fst (Run_measurement self code s 0 0 w1) =
              map_option fst (Run_measurement self code s 0 0 (w\<lparr>tape := t\<rparr>))) \<and>
         map_option (map_sum id fst) (Run self code s w) =
           map_option (map_sum id fst)
             (Run self code (s\<lparr>cache_warmup_cycles_number_' := 0\<rparr>) (w\<lparr>tape := t\<rparr>))"
proof (intro conjI exI)
  let ?W = "unat (cache_warmup_cycles_number_' s)"
  let ?N = "unat (cycles_number_' s)"
  let ?m = "consumed (retained self) ?N (samples t)"
  let ?adv = "advance (CheckCpuMigration self) (BarrierType self) code"
  let ?s0 = "s\<lparr>cache_warmup_cycles_number_' := 0\<rparr>"
  let ?w0 = "w\<lparr>tape := t\<rparr>"
  let ?w1 = "(?adv ^^ ?W) w"
  have mt: "measurement_tape s (tape w) = t"
    using assms by (simp add: measurement_tape_def)
  have mt0: "measurement_tape ?s0 (tape ?w0) = t"
    by (simp add: measurement_tape_def)
  have c: "completes self s (tape w) = (?N \<le> length (filter (retained self) (samples t)))"
    using assms by (simp add: completes_def mt [simplified assms(1)])
  have c0: "completes self ?s0 (tape ?w0) = (?N \<le> length (filter (retained self) (samples t)))"
    by (simp add: completes_def measurement_tape_def)
  show "Run self code s w =
      (if ?N \<le> length (filter (retained self) (samples t))
       then (if cycles_number_' s = 0 then Some (Inl DivisionByZero)
             else Some (Inr (\<lparr>time_' = sum_list (map duration
                                  (take ?N (filter (retained self) (samples t))))
                                div cycles_number_' s,
                              overhead_' = tsc_overhead_' self\<rparr>,
                            (?adv ^^ (?W + ?m)) (PinThread (cpu_' s) w))))
       else None)"
  proof (cases "completes self s (tape w)")
    case True
    from Run_completes [OF True, of code] True c show ?thesis
      by (simp add: measured_def attempts_def mt)
  next
    case False
    from Run_spins [OF False, of code] False c show ?thesis by simp
  qed
  show "Run self code ?s0 ?w0 =
      (if ?N \<le> length (filter (retained self) (samples t))
       then (if cycles_number_' s = 0 then Some (Inl DivisionByZero)
             else Some (Inr (\<lparr>time_' = sum_list (map duration
                                  (take ?N (filter (retained self) (samples t))))
                                div cycles_number_' s,
                              overhead_' = tsc_overhead_' self\<rparr>,
                            (?adv ^^ ?m) (PinThread (cpu_' s) ?w0))))
       else None)"
  proof (cases "completes self ?s0 (tape ?w0)")
    case True
    from Run_completes [OF True, of code] True c0 show ?thesis
      by (simp add: measured_def attempts_def measurement_tape_def)
  next
    case False
    from Run_spins [OF False, of code] False c0 show ?thesis by simp
  qed
  show "user ((?adv ^^ (?W + ?m)) (PinThread (cpu_' s) w)) = (code ^^ (?W + ?m)) (user w)"
    by (simp only: user_advances user_PinThread)
  show "count_list (executed ((?adv ^^ (?W + ?m)) (PinThread (cpu_' s) w))) CALL =
      count_list (executed w) CALL + ?W + ?m"
    by (simp add: calls_advances calls_PinThread)
  show "tape ((?adv ^^ (?W + ?m)) (PinThread (cpu_' s) w)) = drop (2 * ?m) t"
    using assms by (simp add: tape_advances tape_PinThread)
  have "2 * (?W - unat (0 :: 64 word)) \<le> length (tape w)"
    using assms by simp
  from Run_warmup_returns [OF this, of self code]
  show "Run_warmup self code s 0 w = Some ?w1" by simp
  show t1: "tape ?w1 = t" using assms by (simp add: tape_advances)
  show "user ?w1 = (code ^^ ?W) (user w)" by (rule user_advances)
  show "count_list (executed ?w1) CALL = count_list (executed w) CALL + ?W"
    by (rule calls_advances)
  show "map_option fst (Run_measurement self code s 0 0 ?w1) =
      map_option fst (Run_measurement self code s 0 0 ?w0)"
    by (simp add: Run_measurement_outcome t1)
  show "map_option (map_sum id fst) (Run self code s w) =
      map_option (map_sum id fst) (Run self code ?s0 ?w0)"
    using assms mt by (simp add: Run_outcome completes_def measured_def measurement_tape_def)
qed

theorem Run_warmup_frame_witness:
  "Run \<lparr>CheckCpuMigration = False, BarrierType = kMFence, tsc_overhead_' = 10,
         clock_overhead_' = 0\<rparr> Suc
       \<lparr>cycles_number_' = 1, cpu_' = 0, cache_warmup_cycles_number_' = 2\<rparr>
       \<lparr>tape = [\<lparr>low = 1, high = 0, aux = 0\<rparr>, \<lparr>low = 900, high = 0, aux = 0\<rparr>,
                \<lparr>low = 7, high = 0, aux = 0\<rparr>, \<lparr>low = 3, high = 0, aux = 0\<rparr>,
                \<lparr>low = 100, high = 0, aux = 0\<rparr>, \<lparr>low = 140, high = 0, aux = 0\<rparr>],
        executed = [], user = 0\<rparr> =
   Some (Inr (\<lparr>time_' = 40, overhead_' = 10\<rparr>,
              \<lparr>tape = [],
               executed = [PIN 0,
                           CPUID, RDTSC, CALL, CPUID, RDTSC, MFENCE,
                           CPUID, RDTSC, CALL, CPUID, RDTSC, MFENCE,
                           CPUID, RDTSC, CALL, CPUID, RDTSC, MFENCE],
               user = 3\<rparr>))"
  using Run_warmup_frame [of
      "\<lparr>tape = [\<lparr>low = 1, high = 0, aux = 0\<rparr>, \<lparr>low = 900, high = 0, aux = 0\<rparr>,
                \<lparr>low = 7, high = 0, aux = 0\<rparr>, \<lparr>low = 3, high = 0, aux = 0\<rparr>,
                \<lparr>low = 100, high = 0, aux = 0\<rparr>, \<lparr>low = 140, high = 0, aux = 0\<rparr>],
        executed = [], user = 0\<rparr>"
      "[\<lparr>low = 1, high = 0, aux = 0\<rparr>, \<lparr>low = 900, high = 0, aux = 0\<rparr>,
        \<lparr>low = 7, high = 0, aux = 0\<rparr>, \<lparr>low = 3, high = 0, aux = 0\<rparr>]"
      "[\<lparr>low = 100, high = 0, aux = 0\<rparr>, \<lparr>low = 140, high = 0, aux = 0\<rparr>]"
      "\<lparr>cycles_number_' = 1, cpu_' = 0, cache_warmup_cycles_number_' = 2\<rparr>"
      "\<lparr>CheckCpuMigration = False, BarrierType = kMFence, tsc_overhead_' = 10,
        clock_overhead_' = 0\<rparr>" Suc, THEN conjunct1]
  by (simp add: retained_def usable_def same_core_def duration_def stamp_def
        CombineRegisters_def advance_def section_events_def read_event_def PinThread_def
        issue_def numeral_3_eq_3)

section \<open>Time and overhead\<close>

text \<open>
  Claim C8, as amended. For every call of \<^verbatim>\<open>Run\<close> that returns a \<^verbatim>\<open>Result\<close>, and
  in which the sum of the durations of the retained samples fits in 64 bits, the
  result has \<open>0 \<le> overhead_'\<close> and \<open>overhead_' \<le> time_'\<close>.\<close>

theorem Run_time_at_least_overhead:
  assumes "Run self code s w = Some (Inr (res, w'))"
    and "sum_list (map (\<lambda>m. unat (duration m)) (measured self s (tape w))) < 2 ^ 64"
  shows "0 \<le> overhead_' res \<and> overhead_' res \<le> time_' res"
proof -
  let ?M = "measured self s (tape w)"
  let ?N = "cycles_number_' s"
  from Run_returns_iff [OF assms(1)]
  have c: "completes self s (tape w)" and n: "?N \<noteq> 0"
    and t: "time_' res = sum_list (map duration ?M) div ?N"
    and o: "overhead_' res = tsc_overhead_' self"
    by simp_all
  have len: "length ?M = unat ?N" using c by (rule length_measured)
  have each: "Suc (unat (tsc_overhead_' self)) \<le> unat (duration m)" if "m \<in> set ?M" for m
    using retained_measured [OF that] by (simp add: retained_def word_less_nat_alt)
  have "unat ?N * Suc (unat (tsc_overhead_' self))
      \<le> sum_list (map (\<lambda>m. unat (duration m)) ?M)"
    using sum_list_lower [of ?M "Suc (unat (tsc_overhead_' self))" "\<lambda>m. unat (duration m)"]
      each len by simp
  moreover have "unat (sum_list (map duration ?M)) = sum_list (map (\<lambda>m. unat (duration m)) ?M)"
    using unat_sum_list [of "map duration ?M"] assms(2) by (simp add: comp_def)
  ultimately have "unat ?N * Suc (unat (tsc_overhead_' self))
      \<le> unat (sum_list (map duration ?M))" by simp
  moreover have pos: "0 < unat ?N" using n by (simp add: unat_gt_0)
  ultimately have "Suc (unat (tsc_overhead_' self))
      \<le> unat (sum_list (map duration ?M)) div unat ?N"
    by (simp add: less_eq_div_iff_mult_less_eq mult.commute)
  then have "unat (tsc_overhead_' self) \<le> unat (time_' res)"
    by (simp add: t unat_div)
  then show ?thesis by (simp add: o word_le_nat_alt)
qed

text \<open>
  Without the condition the claim fails: \<^verbatim>\<open>summary_time\<close> is an unsigned 64-bit
  integer and wraps around. Two retained samples of \<open>2 ^ 63 + 1\<close> cycles each, with
  an overhead of \<open>2 ^ 63\<close>, give the sum 2 and the time 1.\<close>

theorem Run_time_at_least_overhead_counterexample:
  "map_option (map_sum id fst)
     (Run \<lparr>CheckCpuMigration = False, BarrierType = kOneCpuId,
            tsc_overhead_' = 9223372036854775808, clock_overhead_' = 0\<rparr> Suc
          \<lparr>cycles_number_' = 2, cpu_' = 0, cache_warmup_cycles_number_' = 0\<rparr>
          \<lparr>tape = [\<lparr>low = 0, high = 0, aux = 0\<rparr>, \<lparr>low = 1, high = 2147483648, aux = 0\<rparr>,
                   \<lparr>low = 0, high = 0, aux = 0\<rparr>, \<lparr>low = 1, high = 2147483648, aux = 0\<rparr>],
           executed = [], user = 0\<rparr>) =
   Some (Inr \<lparr>time_' = 1, overhead_' = 9223372036854775808\<rparr>) \<and>
   \<not> (9223372036854775808 :: 64 word) \<le> 1"
  by (simp add: Run_outcome completes_def measured_def measurement_tape_def retained_def
        usable_def same_core_def duration_def stamp_def chip_def CombineRegisters_def
        word_le_nat_alt)

theorem Run_time_at_least_overhead_witness:
  "map_option (map_sum id fst)
     (Run \<lparr>CheckCpuMigration = False, BarrierType = kOneCpuId, tsc_overhead_' = 10,
            clock_overhead_' = 0\<rparr> Suc
          \<lparr>cycles_number_' = 2, cpu_' = 0, cache_warmup_cycles_number_' = 0\<rparr>
          \<lparr>tape = [\<lparr>low = 100, high = 0, aux = 0\<rparr>, \<lparr>low = 140, high = 0, aux = 0\<rparr>,
                   \<lparr>low = 200, high = 0, aux = 0\<rparr>, \<lparr>low = 260, high = 0, aux = 0\<rparr>],
           executed = [], user = 0\<rparr>) =
   Some (Inr \<lparr>time_' = 50, overhead_' = 10\<rparr>) \<and>
   overhead_' \<lparr>time_' = 50, overhead_' = 10\<rparr> \<le> time_' \<lparr>time_' = 50, overhead_' = 10\<rparr>"
proof -
  let ?self = "\<lparr>CheckCpuMigration = False, BarrierType = kOneCpuId, tsc_overhead_' = 10,
                 clock_overhead_' = 0\<rparr>"
  let ?s = "\<lparr>cycles_number_' = 2, cpu_' = 0, cache_warmup_cycles_number_' = 0\<rparr>"
  let ?w = "\<lparr>tape = [\<lparr>low = 100, high = 0, aux = 0\<rparr>, \<lparr>low = 140, high = 0, aux = 0\<rparr>,
                     \<lparr>low = 200, high = 0, aux = 0\<rparr>, \<lparr>low = 260, high = 0, aux = 0\<rparr>],
             executed = [], user = 0 :: nat\<rparr>"
  have m: "measured ?self ?s (tape ?w) =
      [(\<lparr>low = 100, high = 0, aux = 0\<rparr>, \<lparr>low = 140, high = 0, aux = 0\<rparr>),
       (\<lparr>low = 200, high = 0, aux = 0\<rparr>, \<lparr>low = 260, high = 0, aux = 0\<rparr>)]"
    by (simp add: measured_def measurement_tape_def retained_def usable_def same_core_def
          duration_def stamp_def CombineRegisters_def)
  have c: "completes ?self ?s (tape ?w)"
    by (simp add: completes_def measurement_tape_def retained_def usable_def same_core_def
          duration_def stamp_def CombineRegisters_def)
  have r: "Run ?self Suc ?s ?w =
      Some (Inr (\<lparr>time_' = 50, overhead_' = 10\<rparr>,
                 (advance False kOneCpuId Suc ^^ attempts ?self ?s (tape ?w))
                   (PinThread 0 ?w)))"
    using c
    by (simp add: Run_completes m [simplified] duration_def stamp_def CombineRegisters_def)
  have b: "sum_list (map (\<lambda>m. unat (duration m)) (measured ?self ?s (tape ?w))) < 2 ^ 64"
    by (simp add: m [simplified] duration_def stamp_def CombineRegisters_def)
  from Run_time_at_least_overhead [OF r b] r show ?thesis by simp
qed

section \<open>The calibration\<close>


lemma MeasureMinLatency_loop_done:
  "\<not> i < n \<Longrightarrow> MeasureMinLatency_loop self code n i m w = Some (m, w)"
  by (subst MeasureMinLatency_loop.simps) simp

lemma MeasureMinLatency_loop_short:
  assumes "length (tape w) < 2" and "i < n"
  shows "MeasureMinLatency_loop self code n i m w = None"
  using assms(2)
  by (subst MeasureMinLatency_loop.simps) (simp add: Measure_short [OF assms(1)])

lemma MeasureMinLatency_loop_step:
  assumes "tape w = x # y # rest" and "i < n"
  shows "MeasureMinLatency_loop self code n i m w =
     (if usable self (x, y)
      then MeasureMinLatency_loop self code n (i + 1) (min m (duration (x, y)))
             (advance (CheckCpuMigration self) (BarrierType self) code w)
      else MeasureMinLatency_loop self code n i m
             (advance (CheckCpuMigration self) (BarrierType self) code w))"
  using assms(2)
  by (subst MeasureMinLatency_loop.simps)
     (simp add: Measure_step [OF assms(1)] usable_def duration_def)

lemma MeasureMinLatency_loop_returns:
  assumes "unat n - unat i \<le> length (filter (usable self) (samples (tape w)))"
  shows "MeasureMinLatency_loop self code n i m w =
     Some (foldl min m (calibrated self (unat n - unat i) (samples (tape w))),
           ((advance (CheckCpuMigration self) (BarrierType self) code) ^^
              consumed (usable self) (unat n - unat i) (samples (tape w))) w)"
  using assms
proof (induction "tape w" arbitrary: w i m rule: samples.induct)
  case (1 x y rest)
  let ?w' = "advance (CheckCpuMigration self) (BarrierType self) code w"
  have tw: "tape w = x # y # rest" using 1(2) by simp
  have tw': "rest = tape ?w'" by (simp add: tape_advance tw)
  show ?case
  proof (cases "i < n")
    case False
    then show ?thesis
      by (simp add: MeasureMinLatency_loop_done counter_done calibrated_def)
  next
    case lt: True
    obtain k where k: "unat n - unat i = Suc k"
      using counter_step(3) [OF lt] by (cases "unat n - unat i") auto
    show ?thesis
    proof (cases "usable self (x, y)")
      case True
      have k': "unat n - unat (i + 1) = k"
        using counter_step(2) [OF lt] k by simp
      have "k \<le> length (filter (usable self) (samples (tape ?w')))"
        using 1(3) True k tw tw' by simp
      from 1(1) [OF tw', of "i + 1" "min m (duration (x, y))", unfolded k', OF this]
      show ?thesis
        using True lt k tw tw' [symmetric]
        by (simp add: MeasureMinLatency_loop_step [OF tw lt] funpow_swap1 calibrated_def)
    next
      case False
      have "unat n - unat i \<le> length (filter (usable self) (samples (tape ?w')))"
        using 1(3) False tw tw' by simp
      from 1(1) [OF tw', of i m, OF this]
      show ?thesis
        using False lt k tw tw' [symmetric]
        by (simp add: MeasureMinLatency_loop_step [OF tw lt] funpow_swap1 calibrated_def)
    qed
  qed
next
  case 2
  have e: "samples (tape w) = []" using 2(1) [symmetric] by simp
  then have "\<not> i < n"
    using 2(2) counter_step(3) [of i n] by auto
  then show ?case using e
    by (simp add: MeasureMinLatency_loop_done counter_done calibrated_def)
next
  case (3 v)
  have e: "samples (tape w) = []" using 3(1) [symmetric] by simp
  then have "\<not> i < n"
    using 3(2) counter_step(3) [of i n] by auto
  then show ?case using e
    by (simp add: MeasureMinLatency_loop_done counter_done calibrated_def)
qed

lemma MeasureMinLatency_loop_spins:
  assumes "length (filter (usable self) (samples (tape w))) < unat n - unat i"
  shows "MeasureMinLatency_loop self code n i m w = None"
  using assms
proof (induction "tape w" arbitrary: w i m rule: samples.induct)
  case (1 x y rest)
  let ?w' = "advance (CheckCpuMigration self) (BarrierType self) code w"
  have tw: "tape w = x # y # rest" using 1(2) by simp
  have tw': "rest = tape ?w'" by (simp add: tape_advance tw)
  have lt: "i < n"
    using 1(3) by (intro counter_pos) simp
  show ?case
  proof (cases "usable self (x, y)")
    case True
    have "length (filter (usable self) (samples (tape ?w'))) < unat n - unat (i + 1)"
      using 1(3) True tw tw' counter_step(2) [OF lt] by simp
    from 1(1) [OF tw' this] show ?thesis
      using True by (simp add: MeasureMinLatency_loop_step [OF tw lt])
  next
    case False
    have "length (filter (usable self) (samples (tape ?w'))) < unat n - unat i"
      using 1(3) False tw tw' by simp
    from 1(1) [OF tw' this] show ?thesis
      using False by (simp add: MeasureMinLatency_loop_step [OF tw lt])
  qed
next
  case 2
  have lt: "i < n"
    using 2(2) by (intro counter_pos) simp
  show ?case using 2(1) [symmetric] by (simp add: MeasureMinLatency_loop_short [OF _ lt])
next
  case (3 v)
  have lt: "i < n"
    using 3(2) by (intro counter_pos) simp
  show ?case using 3(1) [symmetric] by (simp add: MeasureMinLatency_loop_short [OF _ lt])
qed

lemma foldl_min_Min:
  fixes m :: "'a :: linorder"
  shows "foldl min m ds = Min (set (m # ds))"
proof (induction ds arbitrary: m)
  case Nil
  then show ?case by simp
next
  case (Cons d ds)
  have "Min (insert (min m d) (set ds)) = Min (insert m (insert d (set ds)))"
    by (cases "ds = []") (auto simp: min_def Min_insert2 intro!: Min_eqI antisym)
  with Cons show ?case by simp
qed

lemma foldl_min_top:
  fixes ds :: "64 word list"
  assumes "ds \<noteq> []"
  shows "foldl min (- 1) ds = Min (set ds)"
proof -
  have "min (- 1) (Min (set ds)) = Min (set ds)"
    by (simp add: min_absorb2 word_n1_ge)
  then have "Min (insert (- 1) (set ds)) = Min (set ds)"
    using assms by (subst Min_insert) simp_all
  then show ?thesis by (simp add: foldl_min_Min)
qed

lemma samples_drop: "samples (drop (2 * k) t) = drop k (samples t)"
proof (induction t arbitrary: k rule: samples.induct)
  case (1 x y rest)
  then show ?case by (cases k) simp_all
next
  case 2
  then show ?case by simp
next
  case (3 x)
  then show ?case by (cases k) simp_all
qed

lemma MeasureMinLatency_returns:
  assumes "unat n \<le> length (filter (usable self) (samples (tape w)))"
  shows "MeasureMinLatency self n code w =
     Some (foldl min (- 1) (calibrated self (unat n) (samples (tape w))),
           ((advance (CheckCpuMigration self) (BarrierType self) code) ^^
              consumed (usable self) (unat n) (samples (tape w))) w)"
  using MeasureMinLatency_loop_returns [of n 0 self w code "- 1"] assms
  by (simp add: MeasureMinLatency_def)

lemma length_calibrated:
  "n \<le> length (filter (usable self) ss) \<Longrightarrow> length (calibrated self n ss) = n"
  by (simp add: calibrated_def)

lemma MeasureOverhead_returns:
  assumes "unat n \<le> length (filter (usable self) (samples (tape w)))"
    and "unat n \<le> length (filter (usable self) (samples (clock_tape self n (tape w))))"
  shows "map_option fst (MeasureOverhead self n w) =
     Some (foldl min (- 1) (calibrated self (unat n) (samples (tape w))),
           foldl min (- 1) (calibrated self (unat n) (samples (clock_tape self n (tape w)))) -
           foldl min (- 1) (calibrated self (unat n) (samples (tape w))))"
proof -
  let ?w1 = "((advance (CheckCpuMigration self) (BarrierType self) kEmptyCode) ^^
      consumed (usable self) (unat n) (samples (tape w))) w"
  have t1: "tape ?w1 = clock_tape self n (tape w)"
    by (simp add: tape_advances clock_tape_def)
  from assms(2) have "unat n \<le> length (filter (usable self) (samples (tape ?w1)))"
    by (simp add: t1)
  from MeasureMinLatency_returns [OF this, of kGetTime]
    MeasureMinLatency_returns [OF assms(1), of kEmptyCode]
  show ?thesis
    by (simp add: MeasureOverhead_def t1)
qed

lemma Initialize_stores_floors:
  assumes "Initialize self w = Some (self', w')"
  shows "map_option fst (MeasureOverhead self kDefaultCyclesNumber w) =
           Some (tsc_overhead_' self', clock_overhead_' self')"
    and "CheckCpuMigration self' = CheckCpuMigration self"
    and "BarrierType self' = BarrierType self"
  using assms by (auto simp: Initialize_def split: option.splits)

text \<open>
  Claim C4, as amended. \<^verbatim>\<open>MeasureOverhead\<close> with an argument \<open>n\<close> of at least 1
  (100 by default, which is what \<^verbatim>\<open>Initialize\<close> uses) times the empty operation
  until \<open>n\<close> samples have passed the test of the calibration, which asks for an end
  reading greater than the start reading and, when the object detects migration,
  for equal core ids. It keeps the minimum of the durations of these \<open>n\<close> samples,
  not their mean. It then does the same with the system-clock call on the readings
  that follow. The counter overhead it returns is the first minimum; the clock
  overhead is the second minimum minus the first, in unsigned 64-bit arithmetic.\<close>

theorem MeasureOverhead_floors:
  assumes "n \<noteq> 0"
    and "unat n \<le> length (filter (usable self) (samples (tape w)))"
    and "unat n \<le> length (filter (usable self) (samples (clock_tape self n (tape w))))"
  shows "map_option fst (MeasureOverhead self n w) =
           Some (Min (set (calibrated self (unat n) (samples (tape w)))),
                 Min (set (calibrated self (unat n) (samples (clock_tape self n (tape w))))) -
                 Min (set (calibrated self (unat n) (samples (tape w))))) \<and>
         length (calibrated self (unat n) (samples (tape w))) = unat n \<and>
         length (calibrated self (unat n) (samples (clock_tape self n (tape w)))) = unat n \<and>
         kDefaultCyclesNumber = 100 \<and>
         Initialize self w =
           (case MeasureOverhead self 100 w of
              None \<Rightarrow> None
            | Some (overheads, w') \<Rightarrow>
                Some (self\<lparr>tsc_overhead_' := fst overheads,
                           clock_overhead_' := snd overheads\<rparr>, w'))"
proof -
  from assms(1) have pos: "0 < unat n" by (simp add: unat_gt_0)
  have l1: "length (calibrated self (unat n) (samples (tape w))) = unat n"
    using assms(2) by (rule length_calibrated)
  have l2: "length (calibrated self (unat n) (samples (clock_tape self n (tape w)))) = unat n"
    using assms(3) by (rule length_calibrated)
  from l1 pos have n1: "calibrated self (unat n) (samples (tape w)) \<noteq> []" by auto
  from l2 pos have n2: "calibrated self (unat n) (samples (clock_tape self n (tape w))) \<noteq> []"
    by auto
  show ?thesis
    using MeasureOverhead_returns [OF assms(2,3)] l1 l2
    by (simp add: foldl_min_top [OF n1] foldl_min_top [OF n2] kDefaultCyclesNumber_def
          Initialize_def)
qed

theorem MeasureOverhead_floors_witness:
  "map_option fst
     (MeasureOverhead
        \<lparr>CheckCpuMigration = True, BarrierType = kOneCpuId, tsc_overhead_' = 0,
         clock_overhead_' = 0\<rparr> 2
        \<lparr>tape = [\<lparr>low = 100, high = 0, aux = 0\<rparr>, \<lparr>low = 140, high = 0, aux = 0\<rparr>,
                 \<lparr>low = 200, high = 0, aux = 0\<rparr>, \<lparr>low = 230, high = 0, aux = 0\<rparr>,
                 \<lparr>low = 300, high = 0, aux = 0\<rparr>, \<lparr>low = 400, high = 0, aux = 0\<rparr>,
                 \<lparr>low = 500, high = 0, aux = 0\<rparr>, \<lparr>low = 590, high = 0, aux = 0\<rparr>],
         executed = [], user = ()\<rparr>) = Some (30, 60)"
  using MeasureOverhead_floors [of 2
      "\<lparr>CheckCpuMigration = True, BarrierType = kOneCpuId, tsc_overhead_' = 0,
        clock_overhead_' = 0\<rparr>"
      "\<lparr>tape = [\<lparr>low = 100, high = 0, aux = 0\<rparr>, \<lparr>low = 140, high = 0, aux = 0\<rparr>,
                \<lparr>low = 200, high = 0, aux = 0\<rparr>, \<lparr>low = 230, high = 0, aux = 0\<rparr>,
                \<lparr>low = 300, high = 0, aux = 0\<rparr>, \<lparr>low = 400, high = 0, aux = 0\<rparr>,
                \<lparr>low = 500, high = 0, aux = 0\<rparr>, \<lparr>low = 590, high = 0, aux = 0\<rparr>],
        executed = [], user = ()\<rparr>", THEN conjunct1]
  by (simp add: calibrated_def clock_tape_def usable_def same_core_def duration_def stamp_def
        chip_def CombineRegisters_def)

text \<open>
  The claim as stated takes the minimum over all samples with an end reading greater
  than the start reading. With migration detection, a sample of 5 cycles between two
  cores is passed over, and the floor is the 10 cycles of the next sample.\<close>

theorem MeasureOverhead_floors_counterexample:
  "map_option fst
     (MeasureOverhead
        \<lparr>CheckCpuMigration = True, BarrierType = kOneCpuId, tsc_overhead_' = 0,
         clock_overhead_' = 0\<rparr> 1
        \<lparr>tape = [\<lparr>low = 100, high = 0, aux = 0\<rparr>, \<lparr>low = 105, high = 0, aux = 1\<rparr>,
                 \<lparr>low = 200, high = 0, aux = 1\<rparr>, \<lparr>low = 210, high = 0, aux = 1\<rparr>,
                 \<lparr>low = 300, high = 0, aux = 1\<rparr>, \<lparr>low = 330, high = 0, aux = 1\<rparr>],
         executed = [], user = ()\<rparr>) = Some (10, 20) \<and>
   stamp \<lparr>low = 100, high = 0, aux = 0\<rparr> < stamp \<lparr>low = 105, high = 0, aux = 1\<rparr> \<and>
   stamp \<lparr>low = 105, high = 0, aux = 1\<rparr> - stamp \<lparr>low = 100, high = 0, aux = 0\<rparr> = 5 \<and>
   (5 :: 64 word) < 10"
  by (simp add: MeasureOverhead_returns calibrated_def clock_tape_def usable_def same_core_def
        duration_def stamp_def chip_def CombineRegisters_def)

section \<open>The stabilized calibration\<close>

lemma foldl_min_le:
  fixes m :: "'a :: linorder"
  shows "x \<in> set (m # ds) \<Longrightarrow> foldl min m ds \<le> x"
  by (simp add: foldl_min_Min)

lemma foldl_min_in:
  fixes m :: "'a :: linorder"
  shows "foldl min m ds \<in> set (m # ds)"
  using Min_in [of "set (m # ds)"] by (simp add: foldl_min_Min del: Min_insert)

lemma standing_le: "standing ds \<le> length ds"
  by (simp add: standing_def length_dropWhile_le)

lemma standing_snoc:
  "standing (p @ [d]) = (if d < foldl min (- 1) p then 1 else standing p + 1)"
proof (cases "d < foldl min (- 1) p")
  case True
  then have m: "foldl min (- 1) (p @ [d]) = d" by (simp add: min_absorb2)
  have "d < x" if "x \<in> set p" for x
    using foldl_min_le [of x "- 1" p] that True by auto
  then have "dropWhile (\<lambda>x. d < x) (p @ [d]) = dropWhile (\<lambda>x. d < x) [d]"
    by (simp add: dropWhile_append2)
  then show ?thesis using True by (simp add: standing_def m)
next
  case False
  let ?m = "foldl min (- 1) p"
  from False have m: "foldl min (- 1) (p @ [d]) = ?m" by (simp add: min_absorb1)
  show ?thesis
  proof (cases "\<exists>x \<in> set p. \<not> ?m < x")
    case True
    then obtain x where "x \<in> set p" and "\<not> ?m < x" by blast
    then have "dropWhile (\<lambda>x. ?m < x) (p @ [d]) = dropWhile (\<lambda>x. ?m < x) p @ [d]"
      by (rule dropWhile_append1)
    then show ?thesis using False by (simp add: standing_def m)
  next
    case none: False
    then have "?m \<notin> set p" by auto
    with foldl_min_in [of "- 1" p] have top: "?m = - 1" by auto
    have "p = []"
    proof (cases p)
      case Nil
      then show ?thesis .
    next
      case (Cons a q)
      with none top have "(- 1 :: 64 word) < a" by auto
      moreover have "a \<le> - 1" by (rule word_n1_ge)
      ultimately show ?thesis by simp
    qed
    then show ?thesis using False by (simp add: standing_def)
  qed
qed

lemma MeasureStabilizedMinLatency_loop_done:
  "\<not> (i < n \<and> c < th) \<Longrightarrow>
     MeasureStabilizedMinLatency_loop self code n th i m c w = Some (m, w)"
  by (subst MeasureStabilizedMinLatency_loop.simps) auto

lemma MeasureStabilizedMinLatency_loop_short:
  assumes "length (tape w) < 2" and "i < n" and "c < th"
  shows "MeasureStabilizedMinLatency_loop self code n th i m c w = None"
  using assms(2,3)
  by (subst MeasureStabilizedMinLatency_loop.simps) (simp add: Measure_short [OF assms(1)])

lemma MeasureStabilizedMinLatency_loop_step:
  assumes "tape w = x # y # rest" and "i < n" and "c < th"
  shows "MeasureStabilizedMinLatency_loop self code n th i m c w =
     (if usable self (x, y)
      then (if duration (x, y) < m
            then MeasureStabilizedMinLatency_loop self code n th (i + 1) (duration (x, y)) 1
                   (advance (CheckCpuMigration self) (BarrierType self) code w)
            else MeasureStabilizedMinLatency_loop self code n th (i + 1) m (c + 1)
                   (advance (CheckCpuMigration self) (BarrierType self) code w))
      else MeasureStabilizedMinLatency_loop self code n th i m c
             (advance (CheckCpuMigration self) (BarrierType self) code w))"
  using assms(2,3)
  by (subst MeasureStabilizedMinLatency_loop.simps)
     (simp add: Measure_step [OF assms(1)] usable_def duration_def Let_def)

lemma calibrated_simps:
  "calibrated self 0 ss = []"
  "calibrated self k [] = []"
  "usable self s \<Longrightarrow> calibrated self (Suc k) (s # ss) = duration s # calibrated self k ss"
  "\<not> usable self s \<Longrightarrow> calibrated self k (s # ss) = calibrated self k ss"
  by (simp_all add: calibrated_def)

lemma MeasureStabilizedMinLatency_loop_returns:
  assumes "unat i = length p" and "m = foldl min (- 1) p" and "unat c = standing p"
    and "k \<le> length (filter (usable self) (samples (tape w)))"
    and "stabilized n th (p @ calibrated self k (samples (tape w)))"
    and "\<forall>j<k. \<not> stabilized n th (p @ calibrated self j (samples (tape w)))"
  shows "MeasureStabilizedMinLatency_loop self code n th i m c w =
     Some (foldl min (- 1) (p @ calibrated self k (samples (tape w))),
           ((advance (CheckCpuMigration self) (BarrierType self) code) ^^
              consumed (usable self) k (samples (tape w))) w)"
  using assms
proof (induction "tape w" arbitrary: w i m c p k rule: samples.induct)
  case (1 x y rest)
  let ?w' = "advance (CheckCpuMigration self) (BarrierType self) code w"
  let ?d = "duration (x, y)"
  have tw: "tape w = x # y # rest" using 1(2) by simp
  have tw': "rest = tape ?w'" by (simp add: tape_advance tw)
  have ss: "samples (tape w) = (x, y) # samples (tape ?w')"
    using tw tw' by simp
  show ?case
  proof (cases k)
    case 0
    with 1(7) have "stabilized n th p" by (simp add: calibrated_simps)
    then have "\<not> (i < n \<and> c < th)"
      using 1(3,5) by (auto simp: stabilized_def word_less_nat_alt)
    then show ?thesis
      using 0 1(4) by (simp add: MeasureStabilizedMinLatency_loop_done calibrated_simps)
  next
    case (Suc k')
    with 1(8) have "\<not> stabilized n th p" by (auto simp: calibrated_simps)
    then have lt: "i < n" and ct: "c < th"
      using 1(3,5) by (auto simp: stabilized_def word_less_nat_alt)
    show ?thesis
    proof (cases "usable self (x, y)")
      case True
      have i': "unat (i + 1) = length (p @ [?d])"
        using counter_step(1) [OF lt] 1(3) by simp
      have m': "(if ?d < m then ?d else m) = foldl min (- 1) (p @ [?d])"
        using 1(4) by (auto simp: min_def)
      have c': "unat (if ?d < m then 1 else c + 1) = standing (p @ [?d])"
        using counter_step(1) [OF ct] 1(4,5) by (simp add: standing_snoc)
      have k': "k' \<le> length (filter (usable self) (samples (tape ?w')))"
        using 1(6) True Suc ss by simp
      have st: "stabilized n th ((p @ [?d]) @ calibrated self k' (samples (tape ?w')))"
        using 1(7) True Suc ss by (simp add: calibrated_simps)
      have fi: "\<forall>j<k'. \<not> stabilized n th ((p @ [?d]) @ calibrated self j (samples (tape ?w')))"
      proof (intro allI impI)
        fix j assume "j < k'"
        then have "Suc j < k" using Suc by simp
        with 1(8) have "\<not> stabilized n th (p @ calibrated self (Suc j) (samples (tape w)))"
          by blast
        then show "\<not> stabilized n th ((p @ [?d]) @ calibrated self j (samples (tape ?w')))"
          using True ss by (simp add: calibrated_simps)
      qed
      from 1(1) [OF tw' i' m' c' k' st fi]
      show ?thesis
        using True Suc ss
        by (simp add: MeasureStabilizedMinLatency_loop_step [OF tw lt ct] funpow_swap1
              calibrated_simps split: if_splits)
    next
      case False
      have k': "k \<le> length (filter (usable self) (samples (tape ?w')))"
        using 1(6) False ss by simp
      have st: "stabilized n th (p @ calibrated self k (samples (tape ?w')))"
        using 1(7) False ss by (simp add: calibrated_simps)
      have fi: "\<forall>j<k. \<not> stabilized n th (p @ calibrated self j (samples (tape ?w')))"
        using 1(8) False ss by (simp add: calibrated_simps)
      from 1(1) [OF tw' 1(3,4,5) k' st fi]
      show ?thesis
        using False Suc ss
        by (simp add: MeasureStabilizedMinLatency_loop_step [OF tw lt ct] funpow_swap1
              calibrated_simps)
    qed
  qed
next
  case 2
  have e: "samples (tape w) = []" using 2(1) [symmetric] by simp
  with 2(5) have k: "k = 0" by simp
  with 2(6) have "stabilized n th p" by (simp add: calibrated_simps)
  then have "\<not> (i < n \<and> c < th)"
    using 2(2,4) by (auto simp: stabilized_def word_less_nat_alt)
  then show ?case
    using k 2(3) by (simp add: MeasureStabilizedMinLatency_loop_done calibrated_simps)
next
  case (3 v)
  have e: "samples (tape w) = []" using 3(1) [symmetric] by simp
  with 3(5) have k: "k = 0" by simp
  with 3(6) have "stabilized n th p" by (simp add: calibrated_simps)
  then have "\<not> (i < n \<and> c < th)"
    using 3(2,4) by (auto simp: stabilized_def word_less_nat_alt)
  then show ?case
    using k 3(3) by (simp add: MeasureStabilizedMinLatency_loop_done calibrated_simps)
qed

lemma MeasureStabilizedMinLatency_returns:
  assumes "k \<le> length (filter (usable self) (samples (tape w)))"
    and "stabilized n th (calibrated self k (samples (tape w)))"
    and "\<forall>j<k. \<not> stabilized n th (calibrated self j (samples (tape w)))"
  shows "MeasureStabilizedMinLatency self n th code w =
     Some (foldl min (- 1) (calibrated self k (samples (tape w))),
           ((advance (CheckCpuMigration self) (BarrierType self) code) ^^
              consumed (usable self) k (samples (tape w))) w)"
  using MeasureStabilizedMinLatency_loop_returns [of 0 "[]" "- 1" 0 k self w n th code] assms
  by (simp add: MeasureStabilizedMinLatency_def standing_def)

text \<open>
  Claim C5, as amended. The stabilized calibration stops at the first moment when
  either \<open>cycles_number\<close> usable iterations have been taken, or the number of usable
  iterations since, and including, the one that set the current minimum has reached
  \<open>stabilized_threshold\<close>: that is, when \<open>stabilized_threshold - 1\<close> consecutive
  usable iterations have failed to beat the minimum. It returns the minimum of the
  durations it has taken (the largest 64-bit value if it has taken none). The
  default threshold is 10% of the default number of cycles.\<close>

theorem MeasureStabilizedMinLatency_stops:
  assumes "k \<le> length (filter (usable self) (samples (tape w)))"
    and "stabilized n th (calibrated self k (samples (tape w)))"
    and "\<forall>j<k. \<not> stabilized n th (calibrated self j (samples (tape w)))"
  shows "MeasureStabilizedMinLatency self n th code w =
           Some (if k = 0 then - 1 else Min (set (calibrated self k (samples (tape w)))),
                 ((advance (CheckCpuMigration self) (BarrierType self) code) ^^
                    consumed (usable self) k (samples (tape w))) w) \<and>
         unat kDefaultStabilizedThreshold * 100 = unat kDefaultCyclesNumber * 10"
proof -
  have "foldl min (- 1) (calibrated self k (samples (tape w))) =
      (if k = 0 then - 1 else Min (set (calibrated self k (samples (tape w)))))"
  proof (cases "k = 0")
    case True
    then show ?thesis by (simp add: calibrated_simps)
  next
    case False
    from length_calibrated [OF assms(1)] False
    have "calibrated self k (samples (tape w)) \<noteq> []" by auto
    from foldl_min_top [OF this] False show ?thesis by simp
  qed
  then show ?thesis
    using MeasureStabilizedMinLatency_returns [OF assms, of code]
    by (simp add: kDefaultStabilizedThreshold_def kDefaultCyclesNumber_def)
qed

theorem MeasureStabilizedMinLatency_stops_witness:
  "MeasureStabilizedMinLatency
     \<lparr>CheckCpuMigration = False, BarrierType = kOneCpuId, tsc_overhead_' = 0,
      clock_overhead_' = 0\<rparr> 100 3 Suc
     \<lparr>tape = [\<lparr>low = 100, high = 0, aux = 0\<rparr>, \<lparr>low = 109, high = 0, aux = 0\<rparr>,
              \<lparr>low = 200, high = 0, aux = 0\<rparr>, \<lparr>low = 205, high = 0, aux = 0\<rparr>,
              \<lparr>low = 300, high = 0, aux = 0\<rparr>, \<lparr>low = 307, high = 0, aux = 0\<rparr>,
              \<lparr>low = 400, high = 0, aux = 0\<rparr>, \<lparr>low = 405, high = 0, aux = 0\<rparr>,
              \<lparr>low = 500, high = 0, aux = 0\<rparr>, \<lparr>low = 501, high = 0, aux = 0\<rparr>],
      executed = [], user = 0\<rparr> =
   Some (5, \<lparr>tape = [\<lparr>low = 500, high = 0, aux = 0\<rparr>, \<lparr>low = 501, high = 0, aux = 0\<rparr>],
             executed = [CPUID, RDTSC, CALL, CPUID, RDTSC, CPUID, RDTSC, CALL, CPUID, RDTSC,
                         CPUID, RDTSC, CALL, CPUID, RDTSC, CPUID, RDTSC, CALL, CPUID, RDTSC],
             user = 4\<rparr>)"
proof -
  let ?self = "\<lparr>CheckCpuMigration = False, BarrierType = kOneCpuId, tsc_overhead_' = 0,
                 clock_overhead_' = 0\<rparr>"
  let ?w = "\<lparr>tape = [\<lparr>low = 100, high = 0, aux = 0\<rparr>, \<lparr>low = 109, high = 0, aux = 0\<rparr>,
                     \<lparr>low = 200, high = 0, aux = 0\<rparr>, \<lparr>low = 205, high = 0, aux = 0\<rparr>,
                     \<lparr>low = 300, high = 0, aux = 0\<rparr>, \<lparr>low = 307, high = 0, aux = 0\<rparr>,
                     \<lparr>low = 400, high = 0, aux = 0\<rparr>, \<lparr>low = 405, high = 0, aux = 0\<rparr>,
                     \<lparr>low = 500, high = 0, aux = 0\<rparr>, \<lparr>low = 501, high = 0, aux = 0\<rparr>],
             executed = [], user = 0 :: nat\<rparr>"
  note defs = calibrated_def stabilized_def standing_def usable_def same_core_def
    duration_def stamp_def CombineRegisters_def
  have enough: "4 \<le> length (filter (usable ?self) (samples (tape ?w)))"
    by (simp add: defs)
  have dd: "calibrated ?self 4 (samples (tape ?w)) = [9, 5, 7, 5]"
    by (simp add: defs)
  have stop: "stabilized 100 3 (calibrated ?self 4 (samples (tape ?w)))"
    by (simp add: defs)
  have first: "\<forall>j<4. \<not> stabilized 100 3 (calibrated ?self j (samples (tape ?w)))"
  proof (intro allI impI)
    fix j :: nat
    assume "j < 4"
    then have "j = 0 \<or> j = 1 \<or> j = 2 \<or> j = 3" by arith
    then show "\<not> stabilized 100 3 (calibrated ?self j (samples (tape ?w)))"
      by (elim disjE) (simp_all add: defs)
  qed
  from MeasureStabilizedMinLatency_stops [OF enough stop first, of Suc, THEN conjunct1]
  show ?thesis
    by (simp add: defs advance_def section_events_def read_event_def)
qed

text \<open>
  The claim as stated lets the loop go on until as many iterations as the threshold
  have failed to beat the minimum. With a threshold of 2 and durations 5, 7 and 3,
  the loop stops after the 7, the only iteration that failed to beat the 5, and
  never reads the 3.\<close>

theorem MeasureStabilizedMinLatency_stops_counterexample:
  "MeasureStabilizedMinLatency
     \<lparr>CheckCpuMigration = False, BarrierType = kOneCpuId, tsc_overhead_' = 0,
      clock_overhead_' = 0\<rparr> 100 2 Suc
     \<lparr>tape = [\<lparr>low = 100, high = 0, aux = 0\<rparr>, \<lparr>low = 105, high = 0, aux = 0\<rparr>,
              \<lparr>low = 200, high = 0, aux = 0\<rparr>, \<lparr>low = 207, high = 0, aux = 0\<rparr>,
              \<lparr>low = 300, high = 0, aux = 0\<rparr>, \<lparr>low = 303, high = 0, aux = 0\<rparr>],
      executed = [], user = 0\<rparr> =
   Some (5, \<lparr>tape = [\<lparr>low = 300, high = 0, aux = 0\<rparr>, \<lparr>low = 303, high = 0, aux = 0\<rparr>],
             executed = [CPUID, RDTSC, CALL, CPUID, RDTSC, CPUID, RDTSC, CALL, CPUID, RDTSC],
             user = 2\<rparr>) \<and>
   calibrated
     \<lparr>CheckCpuMigration = False, BarrierType = kOneCpuId, tsc_overhead_' = 0,
      clock_overhead_' = 0\<rparr> 2
     (samples [\<lparr>low = 100, high = 0, aux = 0\<rparr>, \<lparr>low = 105, high = 0, aux = 0\<rparr>,
               \<lparr>low = 200, high = 0, aux = 0\<rparr>, \<lparr>low = 207, high = 0, aux = 0\<rparr>,
               \<lparr>low = 300, high = 0, aux = 0\<rparr>, \<lparr>low = 303, high = 0, aux = 0\<rparr>]) = [5, 7] \<and>
   failed_to_beat [5, 7] = 1 \<and>
   \<not> (unat (100 :: size_t) \<le> length [5, 7 :: TimePoint] \<or>
      unat (2 :: size_t) \<le> failed_to_beat [5, 7])"
proof -
  let ?self = "\<lparr>CheckCpuMigration = False, BarrierType = kOneCpuId, tsc_overhead_' = 0,
                 clock_overhead_' = 0\<rparr>"
  let ?w = "\<lparr>tape = [\<lparr>low = 100, high = 0, aux = 0\<rparr>, \<lparr>low = 105, high = 0, aux = 0\<rparr>,
                     \<lparr>low = 200, high = 0, aux = 0\<rparr>, \<lparr>low = 207, high = 0, aux = 0\<rparr>,
                     \<lparr>low = 300, high = 0, aux = 0\<rparr>, \<lparr>low = 303, high = 0, aux = 0\<rparr>],
             executed = [], user = 0 :: nat\<rparr>"
  note defs = calibrated_def stabilized_def standing_def usable_def same_core_def
    duration_def stamp_def CombineRegisters_def
  have enough: "2 \<le> length (filter (usable ?self) (samples (tape ?w)))"
    by (simp add: defs)
  have stop: "stabilized 100 2 (calibrated ?self 2 (samples (tape ?w)))"
    by (simp add: defs)
  have first: "\<forall>j<2. \<not> stabilized 100 2 (calibrated ?self j (samples (tape ?w)))"
  proof (intro allI impI)
    fix j :: nat
    assume "j < 2"
    then have "j = 0 \<or> j = 1" by arith
    then show "\<not> stabilized 100 2 (calibrated ?self j (samples (tape ?w)))"
      by (elim disjE) (simp_all add: defs)
  qed
  from MeasureStabilizedMinLatency_returns [OF enough stop first, of Suc]
  show ?thesis
    by (simp add: defs failed_to_beat_def advance_def section_events_def read_event_def)
qed

section \<open>The constructor\<close>


lemma TSCBenchmarking_ctor_fails_iff:
  "(TSCBenchmarking_ctor nd c b info = Inl AssertionFailed) =
     (\<not> nd \<and> (\<not> IsTscEnabled info \<or> (b = kRdtscp \<and> \<not> IsRdtscpEnabled info)))"
  by (auto simp: TSCBenchmarking_ctor_def assert_def)

lemma TSCBenchmarking_ctor_succeeds:
  "nd \<or> (IsTscEnabled info \<and> (b \<noteq> kRdtscp \<or> IsRdtscpEnabled info)) \<Longrightarrow>
     TSCBenchmarking_ctor nd c b info =
       Inr (\<lparr>CheckCpuMigration = c, BarrierType = b, tsc_overhead_' = 0, clock_overhead_' = 0\<rparr>,
            if \<not> IsInvariantTscEnabled info
            then [''[Warning] Invariant TSC is not supported on your system''] else [])"
  by (auto simp: TSCBenchmarking_ctor_def assert_def)

lemma rdtscp_section: "b \<noteq> kRdtscp \<Longrightarrow> count_list (section_events True b) RDTSCP = 2"
  by (cases b) (simp_all add: section_events_def read_event_def)

text \<open>
  Claim C6 asks the constructor to refuse every configuration that needs the
  read-and-identify instruction on a processor without it. The constructor, with
  its assertions active, refuses a processor without the counter, and a processor
  without \<^verbatim>\<open>rdtscp\<close> under the barrier \<open>kRdtscp\<close>. An object that detects migration
  reads the counter with \<^verbatim>\<open>rdtscp\<close> under every barrier, and the constructor does
  not look at that: on a processor with the counter and without \<^verbatim>\<open>rdtscp\<close>, it
  accepts the object under every barrier other than \<open>kRdtscp\<close>, even in a build
  without \<^verbatim>\<open>NDEBUG\<close>, and each timed section of that object issues \<^verbatim>\<open>rdtscp\<close>
  twice.\<close>

theorem TSCBenchmarking_ctor_misses_migration:
  assumes "IsTscEnabled info" and "\<not> IsRdtscpEnabled info" and "b \<noteq> kRdtscp"
    and "tape w = x # y # rest"
  shows "TSCBenchmarking_ctor False True b info =
           Inr (\<lparr>CheckCpuMigration = True, BarrierType = b, tsc_overhead_' = 0,
                  clock_overhead_' = 0\<rparr>,
                if \<not> IsInvariantTscEnabled info
                then [''[Warning] Invariant TSC is not supported on your system''] else []) \<and>
         Measure \<lparr>CheckCpuMigration = True, BarrierType = b, tsc_overhead_' = 0,
                   clock_overhead_' = 0\<rparr> code w =
           Some ((stamp x, stamp y, chip x = chip y), advance True b code w) \<and>
         count_list (executed (advance True b code w)) RDTSCP =
           count_list (executed w) RDTSCP + 2"
  using assms(1,3) Measure_step [OF assms(4),
      of "\<lparr>CheckCpuMigration = True, BarrierType = b, tsc_overhead_' = 0,
           clock_overhead_' = 0\<rparr>" code]
  by (simp add: TSCBenchmarking_ctor_succeeds same_core_def advance_def rdtscp_section)

theorem TSCBenchmarking_ctor_misses_migration_witness:
  "IsTscEnabled \<lparr>registers_0 = 0, registers_1 = 0, registers_2 = 0, registers_3 = 272\<rparr> \<and>
   \<not> IsRdtscpEnabled \<lparr>registers_0 = 0, registers_1 = 0, registers_2 = 0, registers_3 = 272\<rparr> \<and>
   TSCBenchmarking_ctor False True kOneCpuId
     \<lparr>registers_0 = 0, registers_1 = 0, registers_2 = 0, registers_3 = 272\<rparr> =
   Inr (\<lparr>CheckCpuMigration = True, BarrierType = kOneCpuId, tsc_overhead_' = 0,
          clock_overhead_' = 0\<rparr>, []) \<and>
   Measure \<lparr>CheckCpuMigration = True, BarrierType = kOneCpuId, tsc_overhead_' = 0,
             clock_overhead_' = 0\<rparr> Suc
     \<lparr>tape = [\<lparr>low = 100, high = 0, aux = 0\<rparr>, \<lparr>low = 140, high = 0, aux = 0\<rparr>],
      executed = [], user = 0\<rparr> =
   Some ((100, 140, True),
         \<lparr>tape = [], executed = [CPUID, RDTSCP, CALL, CPUID, RDTSCP], user = 1\<rparr>)"
  using TSCBenchmarking_ctor_misses_migration [of
      "\<lparr>registers_0 = 0, registers_1 = 0, registers_2 = 0, registers_3 = 272\<rparr>" kOneCpuId
      "\<lparr>tape = [\<lparr>low = 100, high = 0, aux = 0\<rparr>, \<lparr>low = 140, high = 0, aux = 0\<rparr>],
        executed = [], user = 0\<rparr>"
      "\<lparr>low = 100, high = 0, aux = 0\<rparr>" "\<lparr>low = 140, high = 0, aux = 0\<rparr>" "[]" Suc]
  by (simp add: IsTscEnabled_def IsRdtscpEnabled_def IsInvariantTscEnabled_def
        IsFeatureEnabled_def GetEdx_def kTscFeatureBit_def kRdtscpFeatureBit_def
        kInvariantTscBit_def stamp_def chip_def CombineRegisters_def advance_def
        section_events_def read_event_def)

end
